theory Spec2Isabelle
  imports Complex_Main
begin

section \<open>Numbers\<close>

text \<open>
  The program computes on Python floats. Two embeddings of them are used. In the first
  one a float is a real number and every arithmetic operation is exact: there is no
  rounding to 53 bits, no overflow, no infinity and no NaN. The statements about
  \<open>truncate_decimal\<close>, \<open>loop_body\<close>, \<open>calculate_inverter_power\<close> and
  \<open>parse_k_expression\<close> are statements about this exact arithmetic. In the second
  one, from the section on double precision on, every operation is rounded as IEEE 754
  binary64 prescribes and raises what Python raises; its names end in \<open>_d\<close>.
\<close>

text \<open>
  \<^verbatim>\<open>
  def truncate_decimal(value, decimals=1):
      multiplier = 10 ** decimals
      return math.floor(value * multiplier) / multiplier
  \<close>
  Every call in the program leaves \<open>decimals\<close> at its default.
\<close>

definition truncate_decimals :: "real \<Rightarrow> nat \<Rightarrow> real" where
  "truncate_decimals v decimals =
     (let multiplier = 10 ^ decimals
      in of_int \<lfloor>v * multiplier\<rfloor> / multiplier)"

definition truncate_decimal :: "real \<Rightarrow> real" where
  "truncate_decimal v = truncate_decimals v 1"

section \<open>Strings\<close>

text \<open>
  A Python \<open>str\<close> is a sequence of Unicode code points, not of bytes: the program
  replaces the one code point U+03BB (Greek small lambda), and \<open>str.isdigit\<close>,
  \<open>str.strip\<close> and \<open>float\<close> look characters up in the Unicode database. A string is
  therefore a list of code points; \<open>ascii\<close> turns an Isabelle string literal into one.
\<close>

type_synonym pystr = "nat list"

definition ascii :: "string \<Rightarrow> pystr" where
  "ascii s = map of_char s"

text \<open>
  The tables below are those of Unicode 14.0 (CPython 3.11): the characters that
  \<open>str.strip()\<close> removes, the decimal digits (general category Nd, in runs of ten that
  start at the digit zero), and the characters that \<open>str.isdigit\<close> accepts without
  their being decimal (superscripts, circled digits and the like).
\<close>

definition whitespace :: "nat list" where
  "whitespace = [9, 10, 11, 12, 13, 28, 29, 30, 31, 32, 133, 160, 5760,
     8192, 8193, 8194, 8195, 8196, 8197, 8198, 8199, 8200, 8201, 8202,
     8232, 8233, 8239, 8287, 12288]"

definition decimal_ranges :: "(nat \<times> nat) list" where
  "decimal_ranges =
    [(48, 57), (1632, 1641), (1776, 1785), (1984, 1993), (2406, 2415), (2534, 2543),
     (2662, 2671), (2790, 2799), (2918, 2927), (3046, 3055), (3174, 3183),
     (3302, 3311), (3430, 3439), (3558, 3567), (3664, 3673), (3792, 3801),
     (3872, 3881), (4160, 4169), (4240, 4249), (6112, 6121), (6160, 6169),
     (6470, 6479), (6608, 6617), (6784, 6793), (6800, 6809), (6992, 7001),
     (7088, 7097), (7232, 7241), (7248, 7257), (42528, 42537), (43216, 43225),
     (43264, 43273), (43472, 43481), (43504, 43513), (43600, 43609), (44016, 44025),
     (65296, 65305), (66720, 66729), (68912, 68921), (69734, 69743), (69872, 69881),
     (69942, 69951), (70096, 70105), (70384, 70393), (70736, 70745), (70864, 70873),
     (71248, 71257), (71360, 71369), (71472, 71481), (71904, 71913), (72016, 72025),
     (72784, 72793), (73040, 73049), (73120, 73129), (92768, 92777), (92864, 92873),
     (93008, 93017), (120782, 120831), (123200, 123209), (123632, 123641),
     (125264, 125273), (130032, 130041)]"

definition other_digit_ranges :: "(nat \<times> nat) list" where
  "other_digit_ranges =
    [(178, 179), (185, 185), (4969, 4977), (6618, 6618), (8304, 8304), (8308, 8313),
     (8320, 8329), (9312, 9320), (9332, 9340), (9352, 9360), (9450, 9450),
     (9461, 9469), (9471, 9471), (10102, 10110), (10112, 10120), (10122, 10130),
     (68160, 68163), (69216, 69224), (69714, 69722), (127232, 127242)]"

definition in_range :: "nat \<Rightarrow> nat \<times> nat \<Rightarrow> bool" where
  "in_range c r = (fst r \<le> c \<and> c \<le> snd r)"

definition decimal_value :: "nat \<Rightarrow> nat option" where
  "decimal_value c =
     (case find (in_range c) decimal_ranges of
        None \<Rightarrow> None
      | Some r \<Rightarrow> Some ((c - fst r) mod 10))"

definition is_digit_char :: "nat \<Rightarrow> bool" where
  "is_digit_char c = (decimal_value c \<noteq> None \<or> list_ex (in_range c) other_digit_ranges)"

text \<open>\<^verbatim>\<open>s.isdigit()\<close>: every character is a digit and there is at least one.\<close>

definition str_isdigit :: "pystr \<Rightarrow> bool" where
  "str_isdigit s = (s \<noteq> [] \<and> list_all is_digit_char s)"

text \<open>\<^verbatim>\<open>s.strip()\<close>: leading and trailing whitespace removed.\<close>

definition str_strip :: "pystr \<Rightarrow> pystr" where
  "str_strip s =
     rev (dropWhile (\<lambda>c. c \<in> set whitespace) (rev (dropWhile (\<lambda>c. c \<in> set whitespace) s)))"

text \<open>
  \<^verbatim>\<open>s.replace(old, new)\<close>: the occurrences of \<open>old\<close> are replaced from left to
  right, without overlap. The program never passes an empty \<open>old\<close>.
\<close>

function str_replace :: "pystr \<Rightarrow> pystr \<Rightarrow> pystr \<Rightarrow> pystr" where
  "str_replace old new [] = []"
| "str_replace old new (c # s) =
     (if old \<noteq> [] \<and> take (length old) (c # s) = old
      then new @ str_replace old new (drop (length old) (c # s))
      else c # str_replace old new s)"
  by pat_completeness auto
termination
  by (relation "measure (\<lambda>(old, new, s). length s)") auto

section \<open>Exceptions\<close>

text \<open>
  The exceptions that the modelled code can raise. \<open>EmptyInputError\<close> is the name the
  specification gives to the failure on an empty input; no statement of the program
  raises it.
\<close>

datatype py_error =
  IndexError | ValueError | SyntaxError | NameError | TypeError | ZeroDivisionError
  | OverflowError | EmptyInputError

section \<open>Conversions between strings and floats\<close>

text \<open>
  \<^verbatim>\<open>float(expr)\<close> at line 77 receives only strings made of digit characters,
  \<open>.\<close> and \<open>-\<close>, with at least one digit (the test of line 76). On them \<open>float\<close>
  accepts an optional sign, then decimal digits with at most one point and at least one
  digit, and raises \<open>ValueError\<close> on everything else; a decimal digit of any script
  counts with its value, a digit that is not decimal is refused. Exponents, whitespace,
  underscores, \<open>inf\<close> and \<open>nan\<close> cannot reach the call and are not modelled.
\<close>

fun digits_value :: "nat \<Rightarrow> pystr \<Rightarrow> nat option" where
  "digits_value acc [] = Some acc"
| "digits_value acc (c # s) =
     (case decimal_value c of
        None \<Rightarrow> None
      | Some d \<Rightarrow> digits_value (acc * 10 + d) s)"

definition unsigned_value :: "pystr \<Rightarrow> real option" where
  "unsigned_value s =
     (let ip = takeWhile (\<lambda>c. c \<noteq> 46) s; rest = dropWhile (\<lambda>c. c \<noteq> 46) s;
          fp = (case rest of [] \<Rightarrow> [] | dot # t \<Rightarrow> t)
      in if ip = [] \<and> fp = [] then None
         else case (digits_value 0 ip, digits_value 0 fp) of
                (Some i, Some f) \<Rightarrow> Some (real i + real f / 10 ^ length fp)
              | _ \<Rightarrow> None)"

definition float_of_str :: "pystr \<Rightarrow> py_error + real" where
  "float_of_str s =
     (let neg = (s \<noteq> [] \<and> hd s = 45);
          body = (if s \<noteq> [] \<and> (hd s = 45 \<or> hd s = 43) then tl s else s)
      in case unsigned_value body of
           None \<Rightarrow> Inl ValueError
         | Some v \<Rightarrow> Inr (if neg then - v else v))"

text \<open>
  \<^verbatim>\<open>str(lam_safe)\<close> prints a float: the shortest decimal that reads back as the
  same double, in positional notation when the decimal exponent is in \<open>[-4, 16)\<close> and
  in exponent notation otherwise (\<open>0.5\<close>, \<open>1.0\<close>, \<open>1e-09\<close>). A real number has no
  shortest round-trip decimal; the model prints its decimal expansion, cut after 17
  significant digits, in the same two notations. It agrees with Python on every value
  that is a decimal of at most 15 significant digits; the values that the simulation
  prints are the tenths between 0.1 and 1.0 and \<open>1e-9\<close>.
\<close>

fun nat_digits :: "nat \<Rightarrow> pystr" where
  "nat_digits n = (if n < 10 then [48 + n] else nat_digits (n div 10) @ [48 + n mod 10])"

declare nat_digits.simps [simp del]

text \<open>
  The decimal exponent of a positive number below one is found by a bounded search; the
  bound is beyond the exponent of the smallest positive double.
\<close>

fun small_exponent :: "nat \<Rightarrow> real \<Rightarrow> nat" where
  "small_exponent 0 a = 0"
| "small_exponent (Suc n) a = (if 1 \<le> a * 10 then 1 else 1 + small_exponent n (a * 10))"

definition dec_exponent :: "real \<Rightarrow> int" where
  "dec_exponent a =
     (if 1 \<le> a then int (length (nat_digits (nat \<lfloor>a\<rfloor>))) - 1
      else - int (small_exponent 400 a))"

definition pow10 :: "int \<Rightarrow> real" where
  "pow10 k = (if 0 \<le> k then 10 ^ nat k else 1 / 10 ^ nat (- k))"

definition fixed_notation :: "pystr \<Rightarrow> int \<Rightarrow> pystr" where
  "fixed_notation ds e =
     (if 0 \<le> e
      then let n = nat e + 1;
               ip = take n (ds @ replicate (n - length ds) 48);
               fp = drop n ds
           in ip @ [46] @ (if fp = [] then [48] else fp)
      else [48, 46] @ replicate (nat (- e - 1)) 48 @ ds)"

definition exp_notation :: "pystr \<Rightarrow> int \<Rightarrow> pystr" where
  "exp_notation ds e =
     (let xs = nat_digits (nat \<bar>e\<bar>)
      in take 1 ds @ (if drop 1 ds = [] then [] else 46 # drop 1 ds)
         @ [101] @ (if e < 0 then [45] else [43])
         @ (if length xs < 2 then 48 # xs else xs))"

definition float_repr :: "real \<Rightarrow> pystr" where
  "float_repr x =
     (if x = 0 then [48, 46, 48]
      else
        let a = \<bar>x\<bar>;
            e = dec_exponent a;
            ds = rev (dropWhile (\<lambda>c. c = 48) (rev (nat_digits (nat \<lfloor>a * pow10 (16 - e)\<rfloor>))))
        in (if x < 0 then [45] else [])
           @ (if - 4 \<le> e \<and> e < 16 then fixed_notation ds e else exp_notation ds e))"

section \<open>The expression evaluator\<close>

text \<open>
  \<^verbatim>\<open>eval(expr, {"__builtins__": None}, {})\<close> at line 93 is Python's own
  evaluator. It is reached only with strings over the characters
  \<^verbatim>\<open>0123456789+-*/.()eE\<close> (the test of line 88), and it is modelled on those: a
  lexer for Python's numeric literals and operators, a parser for Python's grammar of
  arithmetic expressions, and an evaluator on real numbers. Python evaluates such an
  expression on integers and floats; under exact arithmetic both have the value computed
  here, so one numeric type is enough.

  Over this alphabet Python accepts a few forms that never produce a number: a name
  (\<open>e\<close>, \<open>E1\<close>: NameError, no name is bound), an attribute reference (\<open>(1).e\<close>:
  AttributeError), a call (\<open>1(2)\<close>: TypeError), the Ellipsis \<open>...\<close> and the empty tuple
  \<open>()\<close> (TypeError in the operator applied to them or in \<open>float(result)\<close>). The model
  refuses them in the lexer or the parser. The handler of line 95 catches every
  \<open>Exception\<close> alike, so the model only promises that an error is reported where Python
  raises, not which one: the error returned is the first that the model meets.
\<close>

datatype token =
  NUMBER real | PLUS | MINUS | STAR | DOUBLESTAR | SLASH | DOUBLESLASH | LPAR | RPAR

definition is_ascii_digit :: "nat \<Rightarrow> bool" where
  "is_ascii_digit c = (48 \<le> c \<and> c \<le> 57)"

definition ascii_digits_value :: "pystr \<Rightarrow> nat" where
  "ascii_digits_value s = foldl (\<lambda>acc c. acc * 10 + (c - 48)) 0 s"

text \<open>
  The exponent of a float literal, read after its \<open>e\<close> or \<open>E\<close>: an optional sign and
  at least one digit. The result is the exponent and the text that follows it.
\<close>

definition exponent_part :: "pystr \<Rightarrow> (int \<times> pystr) option" where
  "exponent_part t =
     (let signed = (t \<noteq> [] \<and> (hd t = 43 \<or> hd t = 45));
          body = (if signed then tl t else t);
          ds = takeWhile is_ascii_digit body
      in if ds = [] then None
         else Some ((if signed \<and> hd t = 45 then - 1 else 1) * int (ascii_digits_value ds),
                    dropWhile is_ascii_digit body))"

text \<open>
  A numeric literal at the head of the text: digits, an optional point with more digits,
  an optional exponent. A letter \<open>e\<close> that no exponent follows is left in the text, where
  the lexer refuses it. An integer literal with a leading zero is an error unless it is
  zero (\<open>012\<close> is refused, \<open>00\<close> and \<open>012.5\<close> are accepted).
\<close>

definition scan_number :: "pystr \<Rightarrow> (py_error + real) \<times> pystr" where
  "scan_number s =
     (let ip = takeWhile is_ascii_digit s;
          r1 = dropWhile is_ascii_digit s;
          has_dot = (r1 \<noteq> [] \<and> hd r1 = 46);
          fp = (if has_dot then takeWhile is_ascii_digit (tl r1) else []);
          r2 = (if has_dot then dropWhile is_ascii_digit (tl r1) else r1);
          ex = (if r2 \<noteq> [] \<and> (hd r2 = 101 \<or> hd r2 = 69) then exponent_part (tl r2) else None);
          r3 = (case ex of None \<Rightarrow> r2 | Some (k, r) \<Rightarrow> r);
          k = (case ex of None \<Rightarrow> 0 | Some (k, r) \<Rightarrow> k)
      in if \<not> has_dot \<and> ex = None \<and> 1 < length ip \<and> hd ip = 48 \<and> ascii_digits_value ip \<noteq> 0
         then (Inl SyntaxError, r3)
         else (Inr ((real (ascii_digits_value ip) + real (ascii_digits_value fp) / 10 ^ length fp)
                    * pow10 k), r3))"

definition emit :: "token \<Rightarrow> py_error + token list \<Rightarrow> py_error + token list" where
  "emit t r = (case r of Inl e \<Rightarrow> Inl e | Inr ts \<Rightarrow> Inr (t # ts))"

lemma length_dropWhile_le': "length (dropWhile P xs) \<le> length xs"
  by (induction xs) auto

lemma exponent_part_length: "exponent_part t = Some (k, r) \<Longrightarrow> length r \<le> length t"
  by (auto simp: exponent_part_def Let_def split: if_splits
      intro: order_trans [OF length_dropWhile_le'])

lemma length_tl_dropWhile_le: "length (dropWhile P (tl xs)) \<le> length xs"
  by (rule order_trans [OF length_dropWhile_le']) simp

lemma scan_number_rest:
  "snd (scan_number s) =
     (let r1 = dropWhile is_ascii_digit s;
          has_dot = (r1 \<noteq> [] \<and> hd r1 = 46);
          r2 = (if has_dot then dropWhile is_ascii_digit (tl r1) else r1);
          ex = (if r2 \<noteq> [] \<and> (hd r2 = 101 \<or> hd r2 = 69) then exponent_part (tl r2) else None)
      in case ex of None \<Rightarrow> r2 | Some (k, r) \<Rightarrow> r)"
  by (simp add: scan_number_def Let_def)

lemma scan_number_rest_le:
  "length (snd (scan_number s)) \<le> length (dropWhile is_ascii_digit s)"
proof -
  define r1 where "r1 = dropWhile is_ascii_digit s"
  define r2 where "r2 = (if r1 \<noteq> [] \<and> hd r1 = 46 then dropWhile is_ascii_digit (tl r1) else r1)"
  define ex where "ex = (if r2 \<noteq> [] \<and> (hd r2 = 101 \<or> hd r2 = 69) then exponent_part (tl r2) else None)"
  have r2: "length r2 \<le> length r1"
    by (simp add: r2_def length_tl_dropWhile_le)
  have "length (case ex of None \<Rightarrow> r2 | Some (k, r) \<Rightarrow> r) \<le> length r2"
  proof (cases ex)
    case None
    then show ?thesis by simp
  next
    case (Some p)
    obtain k r where p: "p = (k, r)" by (cases p)
    from Some p have "exponent_part (tl r2) = Some (k, r)"
      by (auto simp: ex_def split: if_splits)
    then have "length r \<le> length (tl r2)" by (rule exponent_part_length)
    with Some p show ?thesis by simp
  qed
  with r2 show ?thesis
    unfolding scan_number_rest Let_def r1_def [symmetric] r2_def [symmetric] ex_def [symmetric]
    by simp
qed

lemma scan_number_length:
  assumes "is_ascii_digit c \<or> (c = 46 \<and> s \<noteq> [] \<and> is_ascii_digit (hd s))"
  shows "length (snd (scan_number (c # s))) \<le> length s"
proof (cases "is_ascii_digit c")
  case True
  have "length (snd (scan_number (c # s))) \<le> length (dropWhile is_ascii_digit (c # s))"
    by (rule scan_number_rest_le)
  also have "\<dots> \<le> length s" using True by (simp add: length_dropWhile_le')
  finally show ?thesis .
next
  case False
  with assms have c: "c = 46" by simp
  have "length (snd (scan_number (c # s))) \<le> length (dropWhile is_ascii_digit s)"
    using False c
    unfolding scan_number_rest Let_def
    by (auto split: option.splits dest!: exponent_part_length
        intro: order_trans [OF _ length_tl_dropWhile_le])
  then show ?thesis
    by (rule order_trans) (rule length_dropWhile_le')
qed

function lex :: "pystr \<Rightarrow> py_error + token list" where
  "lex [] = Inr []"
| "lex (c # s) =
     (if is_ascii_digit c \<or> (c = 46 \<and> s \<noteq> [] \<and> is_ascii_digit (hd s)) then
        (case scan_number (c # s) of
           (Inl e, rest) \<Rightarrow> Inl e
         | (Inr v, rest) \<Rightarrow> emit (NUMBER v) (lex rest))
      else if c = 43 then emit PLUS (lex s)
      else if c = 45 then emit MINUS (lex s)
      else if c = 42 then
        (if s \<noteq> [] \<and> hd s = 42 then emit DOUBLESTAR (lex (tl s)) else emit STAR (lex s))
      else if c = 47 then
        (if s \<noteq> [] \<and> hd s = 47 then emit DOUBLESLASH (lex (tl s)) else emit SLASH (lex s))
      else if c = 40 then emit LPAR (lex s)
      else if c = 41 then emit RPAR (lex s)
      else Inl SyntaxError)"
  by pat_completeness auto
termination
proof (relation "measure length", goal_cases)
  case 1 show ?case by simp
next
  case (2 c s x y rest)
  then have "snd (scan_number (c # s)) = y" by (metis snd_conv)
  with 2 show ?case
    using scan_number_length [of c s] by (simp add: less_Suc_eq_le)
qed (auto simp: less_Suc_eq_le)

text \<open>
  The grammar, from Python's reference: \<open>sum: sum ('+'|'-') term | term\<close>,
  \<open>term: term ('*'|'/'|'//') factor | factor\<close>, \<open>factor: ('+'|'-') factor | power\<close>,
  \<open>power: primary ['**' factor]\<close>, and an atom is a number or a sum in parentheses.
  Each parser returns the expression read and the tokens left. The comparisons of lengths
  are there for the termination proof only: a parser never returns more tokens than it
  was given (\<open>parser_rest_le\<close> below), so their error branches are never taken.
\<close>

datatype binop = Add | Sub | Mult | Div | FloorDiv | Pow

datatype expr = Num real | UAdd expr | USub expr | BinOp expr binop expr

type_synonym parse_result = "py_error + expr \<times> token list"

fun p_sum :: "token list \<Rightarrow> parse_result"
  and p_sum_rest :: "expr \<Rightarrow> token list \<Rightarrow> parse_result"
  and p_term :: "token list \<Rightarrow> parse_result"
  and p_term_rest :: "expr \<Rightarrow> token list \<Rightarrow> parse_result"
  and p_factor :: "token list \<Rightarrow> parse_result"
  and p_power :: "token list \<Rightarrow> parse_result"
  and p_atom :: "token list \<Rightarrow> parse_result"
where
  "p_sum ts =
     (case p_term ts of
        Inl e \<Rightarrow> Inl e
      | Inr (a, r) \<Rightarrow> if length r \<le> length ts then p_sum_rest a r else Inl SyntaxError)"
| "p_sum_rest a [] = Inr (a, [])"
| "p_sum_rest a (t # ts) =
     (if t = PLUS \<or> t = MINUS then
        (case p_term ts of
           Inl e \<Rightarrow> Inl e
         | Inr (b, r) \<Rightarrow>
             if length r \<le> length ts
             then p_sum_rest (BinOp a (if t = PLUS then Add else Sub) b) r
             else Inl SyntaxError)
      else Inr (a, t # ts))"
| "p_term ts =
     (case p_factor ts of
        Inl e \<Rightarrow> Inl e
      | Inr (a, r) \<Rightarrow> if length r \<le> length ts then p_term_rest a r else Inl SyntaxError)"
| "p_term_rest a [] = Inr (a, [])"
| "p_term_rest a (t # ts) =
     (if t = STAR \<or> t = SLASH \<or> t = DOUBLESLASH then
        (case p_factor ts of
           Inl e \<Rightarrow> Inl e
         | Inr (b, r) \<Rightarrow>
             if length r \<le> length ts
             then p_term_rest
                    (BinOp a (if t = STAR then Mult else if t = SLASH then Div else FloorDiv) b) r
             else Inl SyntaxError)
      else Inr (a, t # ts))"
| "p_factor [] = Inl SyntaxError"
| "p_factor (t # ts) =
     (if t = PLUS \<or> t = MINUS then
        (case p_factor ts of
           Inl e \<Rightarrow> Inl e
         | Inr (a, r) \<Rightarrow> Inr (if t = PLUS then UAdd a else USub a, r))
      else p_power (t # ts))"
| "p_power ts =
     (case p_atom ts of
        Inl e \<Rightarrow> Inl e
      | Inr (a, r) \<Rightarrow>
          (case r of
             [] \<Rightarrow> Inr (a, [])
           | t # r' \<Rightarrow>
               if t = DOUBLESTAR then
                 (if length r' < length ts then
                    (case p_factor r' of
                       Inl e \<Rightarrow> Inl e
                     | Inr (b, r'') \<Rightarrow> Inr (BinOp a Pow b, r''))
                  else Inl SyntaxError)
               else Inr (a, r)))"
| "p_atom [] = Inl SyntaxError"
| "p_atom (t # ts) =
     (case t of
        NUMBER v \<Rightarrow> Inr (Num v, ts)
      | LPAR \<Rightarrow>
          (case p_sum ts of
             Inl e \<Rightarrow> Inl e
           | Inr (a, r) \<Rightarrow>
               (case r of
                  [] \<Rightarrow> Inl SyntaxError
                | t' # r' \<Rightarrow> if t' = RPAR then Inr (a, r') else Inl SyntaxError))
      | _ \<Rightarrow> Inl SyntaxError)"

text \<open>
  \<open>x ** y\<close>. With an integral exponent the power is a product or its inverse, and zero
  to a negative power raises ZeroDivisionError. With a fractional exponent a negative
  base gives a complex number, which stays complex through every later operation and
  which \<open>float(result)\<close> refuses with TypeError.
\<close>

definition is_integral :: "real \<Rightarrow> bool" where
  "is_integral y = (of_int \<lfloor>y\<rfloor> = y)"

definition py_pow :: "real \<Rightarrow> real \<Rightarrow> py_error + real" where
  "py_pow x y =
     (if is_integral y then
        (if 0 \<le> y then Inr (x ^ nat \<lfloor>y\<rfloor>)
         else if x = 0 then Inl ZeroDivisionError
         else Inr (1 / x ^ nat (- \<lfloor>y\<rfloor>)))
      else if x < 0 then Inl TypeError
      else if x = 0 then (if 0 < y then Inr 0 else Inl ZeroDivisionError)
      else Inr (x powr y))"

fun apply_binop :: "binop \<Rightarrow> real \<Rightarrow> real \<Rightarrow> py_error + real" where
  "apply_binop Add x y = Inr (x + y)"
| "apply_binop Sub x y = Inr (x - y)"
| "apply_binop Mult x y = Inr (x * y)"
| "apply_binop Div x y = (if y = 0 then Inl ZeroDivisionError else Inr (x / y))"
| "apply_binop FloorDiv x y =
     (if y = 0 then Inl ZeroDivisionError else Inr (of_int \<lfloor>x / y\<rfloor>))"
| "apply_binop Pow x y = py_pow x y"

fun eval_expr :: "expr \<Rightarrow> py_error + real" where
  "eval_expr (Num v) = Inr v"
| "eval_expr (UAdd a) = eval_expr a"
| "eval_expr (USub a) = (case eval_expr a of Inl e \<Rightarrow> Inl e | Inr x \<Rightarrow> Inr (- x))"
| "eval_expr (BinOp a op b) =
     (case eval_expr a of
        Inl e \<Rightarrow> Inl e
      | Inr x \<Rightarrow> (case eval_expr b of Inl e \<Rightarrow> Inl e | Inr y \<Rightarrow> apply_binop op x y))"

definition py_eval :: "pystr \<Rightarrow> py_error + real" where
  "py_eval s =
     (case lex s of
        Inl e \<Rightarrow> Inl e
      | Inr ts \<Rightarrow>
          (case p_sum ts of
             Inl e \<Rightarrow> Inl e
           | Inr (a, r) \<Rightarrow> if r = [] then eval_expr a else Inl SyntaxError))"

section \<open>The gain expression\<close>

text \<open>
  \<^verbatim>\<open>
  def parse_k_expression(k_str, lambda_val):
      try:
          if k_str is None:
              return 0.01
          expr = str(k_str).strip().replace(' ', '')
          expr = expr.replace('^', '**')
          if expr.replace('.', '').replace('-', '').isdigit():
              return float(expr)
          lam_safe = lambda_val if lambda_val != 0 else 1e-9
          expr = expr.replace('lambda', str(lam_safe))
          expr = expr.replace(<U+03BB>, str(lam_safe))
          allowed_chars = set('0123456789+-*/.()eE')
          if not all(c in allowed_chars for c in expr):
              return 0.01
          result = eval(expr, {"__builtins__": None}, {})
          return float(result)
      except Exception:
          return 0.01
  \<close>
  (\<open>main.py\<close>, lines 61 to 97; the specification calls it \<open>evaluate_gain\<close>.)
  \<open>parse_k_expression_try\<close> is the body of the \<open>try\<close>: it returns a value or the
  exception raised. \<open>parse_k_expression\<close> adds the handler. The argument \<open>k_str\<close> is a
  string or \<open>None\<close>.
\<close>

definition allowed_chars :: pystr where
  "allowed_chars = ascii ''0123456789+-*/.()eE''"

text \<open>Lines 72 and 73: the expression without surrounding whitespace and spaces, \<open>^\<close> as \<open>**\<close>.\<close>

definition clean_expression :: "pystr \<Rightarrow> pystr" where
  "clean_expression s =
     (let expr = str_replace (ascii '' '') [] (str_strip s)
      in str_replace (ascii ''^'') (ascii ''**'') expr)"

text \<open>Line 76: the test that opens the shortcut for plain numbers.\<close>

definition numeric_shortcut :: "pystr \<Rightarrow> bool" where
  "numeric_shortcut expr =
     str_isdigit (str_replace (ascii ''-'') [] (str_replace (ascii ''.'') [] expr))"

text \<open>
  Lines 80 to 84: the word \<open>lambda\<close> and the letter U+03BB (code point 955) are replaced
  by the printed value of the ratio, or of \<open>1e-9\<close> when the ratio is 0.
\<close>

definition substitute_lambda :: "real \<Rightarrow> pystr \<Rightarrow> pystr" where
  "substitute_lambda lambda_val expr =
     (let lam_safe = (if lambda_val \<noteq> 0 then lambda_val else 1 / 10 ^ 9);
          expr = str_replace (ascii ''lambda'') (float_repr lam_safe) expr
      in str_replace [955] (float_repr lam_safe) expr)"

definition parse_k_expression_try :: "pystr option \<Rightarrow> real \<Rightarrow> py_error + real" where
  "parse_k_expression_try k_str lambda_val =
     (case k_str of
        None \<Rightarrow> Inr 0.01
      | Some s \<Rightarrow>
          let expr = clean_expression s
          in if numeric_shortcut expr then float_of_str expr
             else
               let expr = substitute_lambda lambda_val expr
               in if \<not> list_all (\<lambda>c. c \<in> set allowed_chars) expr then Inr 0.01
                  else py_eval expr)"

definition parse_k_expression :: "pystr option \<Rightarrow> real \<Rightarrow> real" where
  "parse_k_expression k_str lambda_val =
     (case parse_k_expression_try k_str lambda_val of Inl e \<Rightarrow> 0.01 | Inr v \<Rightarrow> v)"

section \<open>The simulation\<close>

text \<open>
  The data frame is a list of rows. Columns 0 to 3 (timestamp, UTC time, device address,
  device type) are copied to the output and never read; column 4 is the load.
\<close>

record 'a load_record =
  timestamp :: 'a
  utc_time :: 'a
  device_address :: 'a
  device_type :: 'a
  load :: real

text \<open>
  One dictionary of \<open>results\<close>. Its keys are Chinese column titles; in the order of the
  source they read: timestamp, UTC time, device address, device type, load data,
  inverter output, inverter output as a percentage of the load, inverter output
  adjustment, aggressive adjustment, adjustment over aggressive adjustment.
\<close>

record 'a output_record =
  out_timestamp :: 'a
  out_utc_time :: 'a
  out_device_address :: 'a
  out_device_type :: 'a
  out_load :: real
  inverter_output :: real
  inverter_output_percent :: real
  adjustment :: real
  aggressive_adjustment :: real
  adjustment_ratio :: real

text \<open>
  The local variables of one iteration of \<open>calculate_inverter_power\<close> (lines 166 to
  193). \<open>grid_i\<close>, \<open>lam_i\<close> and \<open>k_val\<close> are not written to the output.
\<close>

record step_values =
  inv_curr :: real
  grid_i :: real
  lam_i :: real
  k_val :: real
  inc_i :: real
  aggressive_i :: real
  ratio_i :: real
  inv_percent_i :: real

text \<open>
  Lines 166 to 193: the iteration for a load \<open>load_i\<close>, entered with the inverter
  output \<open>carried\<close> from the iteration before.
\<close>

definition loop_body :: "pystr option \<Rightarrow> real \<Rightarrow> real \<Rightarrow> step_values" where
  "loop_body k_expression carried load_i =
     (let inv_curr = truncate_decimal (min (max 0 carried) load_i);
          grid_i = truncate_decimal (load_i - inv_curr);
          lam_i = truncate_decimal (if load_i \<le> 0 then 0 else grid_i / load_i);
          k_val = parse_k_expression k_expression lam_i;
          inc_i = truncate_decimal (k_val * lam_i ^ 2 * load_i * 1);
          aggressive_i = truncate_decimal (load_i - inv_curr);
          ratio_i = (if aggressive_i = 0 then (if inc_i > 0 then 999.9 else 0)
                     else truncate_decimal (inc_i / aggressive_i));
          inv_percent_i = truncate_decimal (if load_i \<le> 0 then 0 else inv_curr / load_i * 100)
      in \<lparr>inv_curr = inv_curr, grid_i = grid_i, lam_i = lam_i, k_val = k_val, inc_i = inc_i,
          aggressive_i = aggressive_i, ratio_i = ratio_i, inv_percent_i = inv_percent_i\<rparr>)"

text \<open>Lines 196 to 207: the row appended to \<open>results\<close>.\<close>

definition result_row :: "'a load_record \<Rightarrow> step_values \<Rightarrow> 'a output_record" where
  "result_row r v =
     \<lparr>out_timestamp = timestamp r, out_utc_time = utc_time r,
      out_device_address = device_address r, out_device_type = device_type r,
      out_load = truncate_decimal (load r),
      inverter_output = inv_curr v,
      inverter_output_percent = inv_percent_i v,
      adjustment = inc_i v,
      aggressive_adjustment = aggressive_i v,
      adjustment_ratio = ratio_i v\<rparr>"

text \<open>
  Lines 213 to 216: if there is a next row and the updated inverter output exceeds its
  load, the output is replaced by that load, truncated.
\<close>

definition lookahead :: "real \<Rightarrow> 'a load_record list \<Rightarrow> real" where
  "lookahead carried rest =
     (case rest of
        [] \<Rightarrow> carried
      | nxt # _ \<Rightarrow> if carried > load nxt then truncate_decimal (load nxt) else carried)"

text \<open>
  The \<open>for\<close> loop of lines 165 to 216, as a recursion on the rows that remain; line 210
  adds the adjustment to the inverter output.
\<close>

fun loop :: "pystr option \<Rightarrow> real \<Rightarrow> 'a load_record list \<Rightarrow> 'a output_record list" where
  "loop k_expression carried [] = []"
| "loop k_expression carried (r # rest) =
     (let v = loop_body k_expression carried (load r)
      in result_row r v # loop k_expression (lookahead (inv_curr v + inc_i v) rest) rest)"

text \<open>
  \<open>calculate_inverter_power\<close>. Line 163 reads \<open>load_series[0]\<close>, which raises IndexError
  on an empty series.
\<close>

definition calculate_inverter_power ::
  "'a load_record list \<Rightarrow> real \<Rightarrow> pystr option \<Rightarrow> py_error + 'a output_record list" where
  "calculate_inverter_power df initial_inv_power k_expression =
     (case df of
        [] \<Rightarrow> Inl IndexError
      | first # _ \<Rightarrow>
          Inr (loop k_expression (min (max 0 initial_inv_power) (load first)) df))"

text \<open>
  The simulation without lines 213 to 216: the updated inverter output is carried
  unchanged into the next iteration, whose first statement (line 169) clamps it.
\<close>

fun loop_entry_clamp_only ::
  "pystr option \<Rightarrow> real \<Rightarrow> 'a load_record list \<Rightarrow> 'a output_record list" where
  "loop_entry_clamp_only k_expression carried [] = []"
| "loop_entry_clamp_only k_expression carried (r # rest) =
     (let v = loop_body k_expression carried (load r)
      in result_row r v # loop_entry_clamp_only k_expression (inv_curr v + inc_i v) rest)"

definition calculate_inverter_power_entry_clamp_only ::
  "'a load_record list \<Rightarrow> real \<Rightarrow> pystr option \<Rightarrow> py_error + 'a output_record list" where
  "calculate_inverter_power_entry_clamp_only df initial_inv_power k_expression =
     (case df of
        [] \<Rightarrow> Inl IndexError
      | first # _ \<Rightarrow>
          Inr (loop_entry_clamp_only k_expression
                 (min (max 0 initial_inv_power) (load first)) df))"

section \<open>Double precision\<close>

text \<open>
  A Python float is an IEEE 754 binary64 number. The finite ones are the reals
  \<open>m * 2 ^ e\<close> with \<open>\<bar>m\<bar> < 2 ^ 53\<close> and \<open>- 1074 \<le> e \<le> 971\<close>; an arithmetic operation
  returns the exact result rounded to the nearest of them, ties to the even significand,
  and an infinity when the rounded result reaches \<open>2 ^ 1024\<close>. The two zeros are equal in
  every comparison of the program and no operation of it tells them apart, so there is
  one zero here.
\<close>

definition round_half_even :: "real \<Rightarrow> int" where
  "round_half_even q =
     (let f = \<lfloor>q\<rfloor>; d = q - of_int f
      in if d < 1 / 2 then f else if 1 / 2 < d then f + 1 else if even f then f else f + 1)"

text \<open>
  The exponent of the last bit of the significand of the doubles around \<open>x\<close>: 52 below
  the exponent of \<open>x\<close>, and \<open>- 1074\<close> for the subnormal numbers.
\<close>

definition ulp_exponent :: "real \<Rightarrow> int" where
  "ulp_exponent x = max (\<lfloor>log 2 \<bar>x\<bar>\<rfloor> - 52) (- 1074)"

definition nearest_double :: "real \<Rightarrow> real" where
  "nearest_double x =
     (if x = 0 then 0
      else of_int (round_half_even (x / 2 powi ulp_exponent x)) * 2 powi ulp_exponent x)"

datatype pyfloat = Finite real | PosInf | NegInf | NaN

text \<open>The float that an operation with the exact result \<open>x\<close> returns.\<close>

definition fl :: "real \<Rightarrow> pyfloat" where
  "fl x =
     (let r = nearest_double x
      in if 2 ^ 1024 \<le> r then PosInf else if r \<le> - (2 ^ 1024) then NegInf else Finite r)"

fun fneg :: "pyfloat \<Rightarrow> pyfloat" where
  "fneg (Finite a) = Finite (- a)"
| "fneg PosInf = NegInf"
| "fneg NegInf = PosInf"
| "fneg NaN = NaN"

fun fadd :: "pyfloat \<Rightarrow> pyfloat \<Rightarrow> pyfloat" where
  "fadd (Finite a) (Finite b) = fl (a + b)"
| "fadd NaN y = NaN"
| "fadd x NaN = NaN"
| "fadd PosInf NegInf = NaN"
| "fadd NegInf PosInf = NaN"
| "fadd PosInf y = PosInf"
| "fadd NegInf y = NegInf"
| "fadd (Finite a) y = y"

definition fsub :: "pyfloat \<Rightarrow> pyfloat \<Rightarrow> pyfloat" where
  "fsub x y = fadd x (fneg y)"

definition signed_inf :: "bool \<Rightarrow> pyfloat" where
  "signed_inf positive = (if positive then PosInf else NegInf)"

fun fmul :: "pyfloat \<Rightarrow> pyfloat \<Rightarrow> pyfloat" where
  "fmul (Finite a) (Finite b) = fl (a * b)"
| "fmul NaN y = NaN"
| "fmul x NaN = NaN"
| "fmul (Finite a) y = (if a = 0 then NaN else signed_inf ((0 < a) = (y = PosInf)))"
| "fmul x (Finite b) = (if b = 0 then NaN else signed_inf ((0 < b) = (x = PosInf)))"
| "fmul x y = signed_inf (x = y)"

text \<open>\<^verbatim>\<open>x / y\<close> on floats raises ZeroDivisionError when \<open>y\<close> is zero, whatever \<open>x\<close> is.\<close>

fun fdiv :: "pyfloat \<Rightarrow> pyfloat \<Rightarrow> py_error + pyfloat" where
  "fdiv x (Finite b) =
     (if b = 0 then Inl ZeroDivisionError
      else case x of
             Finite a \<Rightarrow> Inr (fl (a / b))
           | NaN \<Rightarrow> Inr NaN
           | _ \<Rightarrow> Inr (signed_inf ((0 < b) = (x = PosInf))))"
| "fdiv NaN y = Inr NaN"
| "fdiv x NaN = Inr NaN"
| "fdiv (Finite a) y = Inr (Finite 0)"
| "fdiv x y = Inr NaN"

text \<open>The comparisons \<^verbatim>\<open>x < y\<close> and \<^verbatim>\<open>x <= y\<close>: false as soon as one side is NaN.\<close>

fun py_lt :: "pyfloat \<Rightarrow> pyfloat \<Rightarrow> bool" where
  "py_lt (Finite a) (Finite b) = (a < b)"
| "py_lt NaN y = False"
| "py_lt x NaN = False"
| "py_lt PosInf y = False"
| "py_lt x NegInf = False"
| "py_lt x y = True"

definition py_le :: "pyfloat \<Rightarrow> pyfloat \<Rightarrow> bool" where
  "py_le x y = (py_lt x y \<or> (x = y \<and> x \<noteq> NaN))"

text \<open>
  \<^verbatim>\<open>max(x, y)\<close> and \<^verbatim>\<open>min(x, y)\<close> keep their first argument unless the second is
  greater, respectively smaller.
\<close>

definition py_max :: "pyfloat \<Rightarrow> pyfloat \<Rightarrow> pyfloat" where
  "py_max x y = (if py_lt x y then y else x)"

definition py_min :: "pyfloat \<Rightarrow> pyfloat \<Rightarrow> pyfloat" where
  "py_min x y = (if py_lt y x then y else x)"

text \<open>A statement that may raise, followed by the statements after it.\<close>

definition py_bind :: "py_error + 'a \<Rightarrow> ('a \<Rightarrow> py_error + 'b) \<Rightarrow> py_error + 'b" where
  "py_bind r f = (case r of Inl e \<Rightarrow> Inl e | Inr x \<Rightarrow> f x)"

text \<open>
  \<^verbatim>\<open>math.floor(x)\<close> returns a Python integer; it raises ValueError on NaN and
  OverflowError on an infinity.
\<close>

definition math_floor :: "pyfloat \<Rightarrow> py_error + int" where
  "math_floor x =
     (case x of Finite v \<Rightarrow> Inr \<lfloor>v\<rfloor> | NaN \<Rightarrow> Inl ValueError | _ \<Rightarrow> Inl OverflowError)"

text \<open>
  \<^verbatim>\<open>a / b\<close> on two Python integers: the quotient rounded once, OverflowError when
  it is too large for a float.
\<close>

definition int_truediv :: "int \<Rightarrow> int \<Rightarrow> py_error + real" where
  "int_truediv a b =
     (if b = 0 then Inl ZeroDivisionError
      else case fl (of_int a / of_int b) of Finite r \<Rightarrow> Inr r | _ \<Rightarrow> Inl OverflowError)"

text \<open>
  \<open>truncate_decimal\<close> (lines 43 to 46) on floats, with \<open>decimals\<close> at its default:
  \<open>multiplier\<close> is the integer 10, the product \<open>value * multiplier\<close> is a float product
  and is rounded, \<open>math.floor\<close> may raise, and the final division is that of two
  integers. When it returns, it returns a finite float.
\<close>

definition truncate_decimal_d :: "pyfloat \<Rightarrow> py_error + real" where
  "truncate_decimal_d v = py_bind (math_floor (fmul v (Finite 10))) (\<lambda>n. int_truediv n 10)"

section \<open>The gain expression in double precision\<close>

text \<open>
  \<open>str\<close> of a float and \<open>eval\<close> belong to the Python interpreter, not to the program.
  They are arguments of the model: \<open>runtime_str x\<close> is \<^verbatim>\<open>str(x)\<close>, and
  \<open>runtime_eval expr\<close> is \<^verbatim>\<open>float(eval(expr, {"__builtins__": None}, {}))\<close>, the
  float returned or the exception raised by either call. Every statement below holds
  for every such pair, hence for the interpreter's.
\<close>

record python_runtime =
  runtime_str :: "pyfloat \<Rightarrow> pystr"
  runtime_eval :: "pystr \<Rightarrow> py_error + pyfloat"

text \<open>
  \<^verbatim>\<open>float(expr)\<close> at line 77: the decimal value of the string, rounded once; a value
  too large gives an infinity, not an exception.
\<close>

definition float_of_str_d :: "pystr \<Rightarrow> py_error + pyfloat" where
  "float_of_str_d s = (case float_of_str s of Inl e \<Rightarrow> Inl e | Inr x \<Rightarrow> Inr (fl x))"

text \<open>The float literal \<^verbatim>\<open>0.01\<close>.\<close>

definition default_gain :: pyfloat where
  "default_gain = fl (1 / 100)"

definition substitute_lambda_d :: "python_runtime \<Rightarrow> pyfloat \<Rightarrow> pystr \<Rightarrow> pystr" where
  "substitute_lambda_d rt lambda_val expr =
     (let lam_safe = (if lambda_val \<noteq> Finite 0 then lambda_val else fl (1 / 10 ^ 9));
          expr = str_replace (ascii ''lambda'') (runtime_str rt lam_safe) expr
      in str_replace [955] (runtime_str rt lam_safe) expr)"

definition parse_k_expression_try_d ::
  "python_runtime \<Rightarrow> pystr option \<Rightarrow> pyfloat \<Rightarrow> py_error + pyfloat" where
  "parse_k_expression_try_d rt k_str lambda_val =
     (case k_str of
        None \<Rightarrow> Inr default_gain
      | Some s \<Rightarrow>
          let expr = clean_expression s
          in if numeric_shortcut expr then float_of_str_d expr
             else
               let expr = substitute_lambda_d rt lambda_val expr
               in if \<not> list_all (\<lambda>c. c \<in> set allowed_chars) expr then Inr default_gain
                  else runtime_eval rt expr)"

definition parse_k_expression_d :: "python_runtime \<Rightarrow> pystr option \<Rightarrow> pyfloat \<Rightarrow> pyfloat" where
  "parse_k_expression_d rt k_str lambda_val =
     (case parse_k_expression_try_d rt k_str lambda_val of
        Inl e \<Rightarrow> default_gain
      | Inr v \<Rightarrow> v)"

section \<open>The simulation in double precision\<close>


text \<open>
  The local variables of one iteration. All but \<open>k_val\<close> are results of
  \<open>truncate_decimal\<close> or float literals, hence finite.
\<close>

record step_values_d =
  inv_curr_d :: real
  grid_d :: real
  lam_d :: real
  k_val_d :: pyfloat
  inc_d :: real
  aggressive_d :: real
  ratio_d :: real
  inv_percent_d :: real

text \<open>
  Lines 166 to 193 on floats, each statement in the order of the source, so that the
  first exception raised is the result. \<^verbatim>\<open>lam_i ** 2\<close> is the C library's
  \<open>pow(lam_i, 2.0)\<close>, taken as the square rounded once.
\<close>

definition loop_body_d ::
  "python_runtime \<Rightarrow> pystr option \<Rightarrow> pyfloat \<Rightarrow> pyfloat \<Rightarrow> py_error + step_values_d" where
  "loop_body_d rt k_expression carried load_i =
     py_bind (truncate_decimal_d (py_min (py_max (Finite 0) carried) load_i)) (\<lambda>inv_curr.
     py_bind (truncate_decimal_d (fsub load_i (Finite inv_curr))) (\<lambda>grid_i.
     py_bind (if py_le load_i (Finite 0) then truncate_decimal_d (Finite 0)
              else py_bind (fdiv (Finite grid_i) load_i) truncate_decimal_d) (\<lambda>lam_i.
     let k_val = parse_k_expression_d rt k_expression (Finite lam_i) in
     py_bind (truncate_decimal_d
                (fmul (fmul (fmul k_val (fl (lam_i * lam_i))) load_i) (Finite 1))) (\<lambda>inc_i.
     py_bind (truncate_decimal_d (fsub load_i (Finite inv_curr))) (\<lambda>aggressive_i.
     py_bind (if aggressive_i = 0
              then Inr (if inc_i > 0 then nearest_double 999.9 else 0)
              else py_bind (fdiv (Finite inc_i) (Finite aggressive_i)) truncate_decimal_d)
       (\<lambda>ratio_i.
     py_bind (if py_le load_i (Finite 0) then truncate_decimal_d (Finite 0)
              else py_bind (fdiv (Finite inv_curr) load_i)
                     (\<lambda>q. truncate_decimal_d (fmul q (Finite 100)))) (\<lambda>inv_percent_i.
     Inr \<lparr>inv_curr_d = inv_curr, grid_d = grid_i, lam_d = lam_i, k_val_d = k_val,
          inc_d = inc_i, aggressive_d = aggressive_i, ratio_d = ratio_i,
          inv_percent_d = inv_percent_i\<rparr>)))))))"





section \<open>Example inputs\<close>

text \<open>
  A row whose pass-through columns are empty, and the output row with the same columns,
  for stating the examples below.
\<close>

definition row :: "real \<Rightarrow> unit load_record" where
  "row l = \<lparr>timestamp = (), utc_time = (), device_address = (), device_type = (), load = l\<rparr>"

definition out_row :: "real \<Rightarrow> real \<Rightarrow> real \<Rightarrow> real \<Rightarrow> real \<Rightarrow> real \<Rightarrow> unit output_record" where
  "out_row l i p a g q =
     \<lparr>out_timestamp = (), out_utc_time = (), out_device_address = (), out_device_type = (),
      out_load = l, inverter_output = i, inverter_output_percent = p, adjustment = a,
      aggressive_adjustment = g, adjustment_ratio = q\<rparr>"


section \<open>Properties of the truncation\<close>

lemma truncate_decimal_floor: "truncate_decimal v = of_int \<lfloor>v * 10\<rfloor> / 10"
  by (simp add: truncate_decimal_def truncate_decimals_def)

lemma truncate_decimal_le: "truncate_decimal v \<le> v"
proof -
  have "of_int \<lfloor>v * 10\<rfloor> \<le> v * 10" by (rule of_int_floor_le)
  then show ?thesis by (simp add: truncate_decimal_floor)
qed

lemma truncate_decimal_mono: "a \<le> b \<Longrightarrow> truncate_decimal a \<le> truncate_decimal b"
proof -
  assume "a \<le> b"
  then have "\<lfloor>a * 10\<rfloor> \<le> \<lfloor>b * 10\<rfloor>" by (intro floor_mono) simp
  then show ?thesis by (simp add: truncate_decimal_floor)
qed

lemma truncate_decimal_nonneg: "0 \<le> v \<Longrightarrow> 0 \<le> truncate_decimal v"
  by (simp add: truncate_decimal_floor)

lemma truncate_decimal_idem: "truncate_decimal (truncate_decimal v) = truncate_decimal v"
  by (simp add: truncate_decimal_floor)

lemma truncate_decimal_zero: "truncate_decimal 0 = 0"
  by (simp add: truncate_decimal_floor)

section \<open>The gain of the scenario\<close>

lemmas fast_path_eval = parse_k_expression_def parse_k_expression_try_def clean_expression_def
  numeric_shortcut_def Let_def ascii_def
  str_strip_def whitespace_def str_isdigit_def is_digit_char_def decimal_value_def
  decimal_ranges_def in_range_def float_of_str_def unsigned_value_def

lemma gain_001: "parse_k_expression (Some (ascii ''0.01'')) r = 0.01"
  by (simp add: fast_path_eval)

lemma step0: "loop_body (Some (ascii ''0.01'')) 10 100 =
   \<lparr>inv_curr = 10, grid_i = 90, lam_i = 0.9, k_val = 0.01, inc_i = 0.8,
    aggressive_i = 90, ratio_i = 0, inv_percent_i = 10\<rparr>"
  by (simp add: loop_body_def Let_def gain_001 truncate_decimal_floor power2_eq_square)

lemma step1: "loop_body (Some (ascii ''0.01'')) (54 / 5) 90 =
   \<lparr>inv_curr = 10.8, grid_i = 79.2, lam_i = 0.8, k_val = 0.01, inc_i = 0.5,
    aggressive_i = 79.2, ratio_i = 0, inv_percent_i = 12\<rparr>"
  by (simp add: loop_body_def Let_def gain_001 truncate_decimal_floor power2_eq_square)

lemma step2: "loop_body (Some (ascii ''0.01'')) (113 / 10) 80 =
   \<lparr>inv_curr = 11.3, grid_i = 68.7, lam_i = 0.8, k_val = 0.01, inc_i = 0.5,
    aggressive_i = 68.7, ratio_i = 0, inv_percent_i = 14.1\<rparr>"
  by (simp add: loop_body_def Let_def gain_001 truncate_decimal_floor power2_eq_square)

section \<open>Properties of one iteration\<close>

lemma inv_curr_loop_body:
  "inv_curr (loop_body k c l) = truncate_decimal (min (max 0 c) l)"
  by (simp add: loop_body_def Let_def)

lemma inc_i_loop_body_cong:
  "inv_curr (loop_body k c l) = inv_curr (loop_body k c' l) \<Longrightarrow> loop_body k c l = loop_body k c' l"
  by (simp add: loop_body_def Let_def)

lemma loop_length: "length (loop k c rows) = length rows"
  by (induction rows arbitrary: c) (simp_all add: Let_def)

section \<open>The end-to-end scenario\<close>

lemma scenario_rows:
  "calculate_inverter_power [row 100, row 90, row 80] 10 (Some (ascii ''0.01'')) =
     Inr [out_row 100 10 10 0.8 90 0,
          out_row 90 10.8 12 0.5 79.2 0,
          out_row 80 11.3 14.1 0.5 68.7 0]"
proof -
  have "loop (Some (ascii ''0.01'')) 10 [row 100, row 90, row 80] =
      [out_row 100 10 10 0.8 90 0, out_row 90 10.8 12 0.5 79.2 0,
       out_row 80 11.3 14.1 0.5 68.7 0]"
    by (simp add: Let_def step0 step1 step2 lookahead_def result_row_def out_row_def row_def
        truncate_decimal_floor)
  then show ?thesis
    by (simp add: calculate_inverter_power_def row_def)
qed

text \<open>
  C1. For the loads 100.0, 90.0, 80.0, the initial inverter power 10.0 and the gain
  expression \<open>0.01\<close>: step 0 runs with inverter output 10.0, grid draw 90.0, ratio 0.9,
  adjustment \<open>truncate (0.01 * 0.81 * 100) = 0.8\<close>, aggressive adjustment 90.0 and
  adjustment ratio \<open>truncate (0.8 / 90.0) = 0.0\<close>; the inverter output carried into step
  1 is 10.8 and the lookahead clamp leaves it alone; at step 1 the entry clamp yields
  10.8 and the grid draw is \<open>truncate (90 - 10.8) = 79.2\<close>. The three rows returned are
  those of the recurrence.
\<close>

theorem scenario_trace:
  "loop_body (Some (ascii ''0.01'')) (min (max 0 10) 100) 100 =
     \<lparr>inv_curr = 10, grid_i = 90, lam_i = 0.9, k_val = 0.01, inc_i = 0.8,
      aggressive_i = 90, ratio_i = 0, inv_percent_i = 10\<rparr>
   \<and> truncate_decimal (0.01 * 0.81 * 100) = 0.8
   \<and> truncate_decimal (0.8 / 90) = 0
   \<and> lookahead (10 + 0.8) [row 90, row 80] = 10.8
   \<and> inv_curr (loop_body (Some (ascii ''0.01'')) 10.8 90) = 10.8
   \<and> grid_i (loop_body (Some (ascii ''0.01'')) 10.8 90) = 79.2
   \<and> truncate_decimal (90 - 10.8) = 79.2
   \<and> calculate_inverter_power [row 100, row 90, row 80] 10 (Some (ascii ''0.01'')) =
       Inr [out_row 100 10 10 0.8 90 0,
            out_row 90 10.8 12 0.5 79.2 0,
            out_row 80 11.3 14.1 0.5 68.7 0]"
proof -
  have "truncate_decimal (0.01 * 0.81 * 100) = 0.8" "truncate_decimal (0.8 / 90) = 0"
    "truncate_decimal (90 - 10.8) = 79.2"
    by (simp_all add: truncate_decimal_floor)
  moreover have "lookahead (10 + 0.8) [row 90, row 80] = 10.8"
    by (simp add: lookahead_def row_def)
  ultimately show ?thesis by (simp add: step0 step1 scenario_rows)
qed

section \<open>The clamp\<close>


section \<open>The empty input\<close>

text \<open>
  C3, as stated, fails: the failure on an empty load sequence is not a dedicated
  \<open>EmptyInputError\<close>.
\<close>

theorem empty_input_error_is_not_dedicated:
  "calculate_inverter_power ([] :: unit load_record list) 10 (Some (ascii ''0.01''))
     \<noteq> Inl EmptyInputError"
  by (simp add: calculate_inverter_power_def)

text \<open>
  C3, amended. The simulation called with an empty load sequence fails with the
  IndexError that reading the first load raises; it does not return a result.
\<close>

theorem empty_input_raises_IndexError: "calculate_inverter_power [] p k = Inl IndexError"
  by (simp add: calculate_inverter_power_def)

section \<open>The lookahead clamp\<close>

lemma entry_clamp_absorbs_lookahead:
  assumes "l < c"
  shows "truncate_decimal (min (max 0 (truncate_decimal l)) l) = truncate_decimal (min (max 0 c) l)"
proof (cases "0 \<le> l")
  case True
  then have "0 \<le> truncate_decimal l" by (rule truncate_decimal_nonneg)
  moreover have "truncate_decimal l \<le> l" by (rule truncate_decimal_le)
  ultimately have "min (max 0 (truncate_decimal l)) l = truncate_decimal l" by simp
  moreover from True assms have "min (max 0 c) l = l" by simp
  ultimately show ?thesis by (simp add: truncate_decimal_idem)
next
  case False
  moreover have "truncate_decimal l \<le> l" by (rule truncate_decimal_le)
  ultimately have "min (max 0 (truncate_decimal l)) l = l" by simp
  moreover from False have "min (max 0 c) l = l" by simp
  ultimately show ?thesis by simp
qed

lemma loop_lookahead: "loop k (lookahead c rest) rest = loop k c rest"
proof (cases rest)
  case Nil
  then show ?thesis by simp
next
  case (Cons nxt rest')
  have "loop_body k (lookahead c rest) (load nxt) = loop_body k c (load nxt)"
    by (rule inc_i_loop_body_cong)
      (simp add: Cons lookahead_def inv_curr_loop_body entry_clamp_absorbs_lookahead)
  then show ?thesis by (simp add: Cons Let_def)
qed

lemma loop_entry_clamp_only: "loop_entry_clamp_only k c rows = loop k c rows"
  by (induction rows arbitrary: c) (simp_all add: Let_def loop_lookahead)

text \<open>
  C8. The lookahead clamp is redundant with the entry clamp: for every input the
  simulation produces exactly the result of the simulation that omits the lookahead
  clamp and relies on the entry clamp of the next step.
\<close>

theorem lookahead_clamp_redundant:
  "calculate_inverter_power df p k = calculate_inverter_power_entry_clamp_only df p k"
  by (simp add: calculate_inverter_power_def calculate_inverter_power_entry_clamp_only_def
      loop_entry_clamp_only split: list.split)

section \<open>Evaluating the gain expression\<close>

lemma nat_digits_numeral:
  "nat_digits (numeral k) =
     (if numeral k < (10::nat) then [48 + numeral k]
      else nat_digits (numeral k div 10) @ [48 + numeral k mod 10])"
  by (rule nat_digits.simps)

lemma small_exponent_numeral:
  "small_exponent (numeral n) a =
     (if 1 \<le> a * 10 then 1 else 1 + small_exponent (pred_numeral n) (a * 10))"
  by (simp add: numeral_eq_Suc)

lemma float_repr_half: "float_repr (1 / 2) = ascii ''0.5''"
  unfolding float_repr_def Let_def
  by (simp add: dec_exponent_def small_exponent_numeral pow10_def nat_digits_numeral
      fixed_notation_def ascii_def)

lemma floor_minus_one_real: "\<lfloor>- 1 :: real\<rfloor> = - 1"
  using floor_uminus_of_int [of 1, where ?'a = real] by simp

lemmas lex_eval = scan_number_def exponent_part_def ascii_digits_value_def is_ascii_digit_def
  emit_def pow10_def Let_def floor_minus_one_real power_divide

lemma eval_example: "py_eval (ascii ''0.01*0.5**2'') = Inr 0.0025"
  by (simp add: py_eval_def ascii_def lex_eval py_pow_def is_integral_def)

lemma gain_not_a_formula: "parse_k_expression (Some (ascii ''not_a_formula!!'')) r = 0.01"
  by (simp add: fast_path_eval substitute_lambda_def allowed_chars_def other_digit_ranges_def)

lemma gain_002: "parse_k_expression (Some (ascii ''0.02'')) r = 0.02"
  by (simp add: fast_path_eval)

lemma clean_lambda: "clean_expression (ascii ''0.01*lambda^2'') = ascii ''0.01*lambda**2''"
  by (simp add: clean_expression_def Let_def ascii_def str_strip_def whitespace_def)

lemma shortcut_lambda: "\<not> numeric_shortcut (ascii ''0.01*lambda**2'')"
  by (simp add: numeric_shortcut_def ascii_def str_isdigit_def is_digit_char_def
      decimal_value_def decimal_ranges_def other_digit_ranges_def in_range_def)

lemma subst_lambda: "substitute_lambda (1 / 2) (ascii ''0.01*lambda**2'') = ascii ''0.01*0.5**2''"
  by (simp add: substitute_lambda_def Let_def float_repr_half) (simp add: ascii_def)

lemma allowed_example: "list_all (\<lambda>c. c \<in> set allowed_chars) (ascii ''0.01*0.5**2'')"
  by (simp add: allowed_chars_def ascii_def)

lemma gain_lambda: "parse_k_expression (Some (ascii ''0.01*lambda^2'')) (1 / 2) = 0.0025"
  by (simp add: parse_k_expression_def parse_k_expression_try_def clean_lambda shortcut_lambda
      subst_lambda allowed_example eval_example)

lemma clean_glyph: "clean_expression (ascii ''0.01*'' @ 955 # ascii ''^2'') = ascii ''0.01*'' @ 955 # ascii ''**2''"
  by (simp add: clean_expression_def Let_def ascii_def str_strip_def whitespace_def)

lemma shortcut_glyph: "\<not> numeric_shortcut (ascii ''0.01*'' @ 955 # ascii ''**2'')"
  by (simp add: numeric_shortcut_def ascii_def str_isdigit_def is_digit_char_def
      decimal_value_def decimal_ranges_def other_digit_ranges_def in_range_def)

lemma subst_glyph:
  "substitute_lambda (1 / 2) (ascii ''0.01*'' @ 955 # ascii ''**2'') = ascii ''0.01*0.5**2''"
  by (simp add: substitute_lambda_def Let_def float_repr_half) (simp add: ascii_def)

lemma gain_glyph:
  "parse_k_expression (Some (ascii ''0.01*'' @ 955 # ascii ''^2'')) (1 / 2) = 0.0025"
  by (simp add: parse_k_expression_def parse_k_expression_try_def clean_glyph shortcut_glyph
      subst_glyph allowed_example eval_example)

text \<open>
  C6, as stated, fails: the program does not know the word \<open>ratio\<close>. Its free variable is
  spelt \<open>lambda\<close> or U+03BB; the letters of \<open>ratio\<close> are outside the allowed characters
  and the default 0.01 is returned, not 0.0025.
\<close>

theorem gain_ratio_word_falls_back:
  "parse_k_expression (Some (ascii ''0.01*ratio^2'')) 0.5 = 0.01
   \<and> parse_k_expression (Some (ascii ''0.01*ratio^2'')) 0.5 \<noteq> 0.0025"
proof -
  have "parse_k_expression (Some (ascii ''0.01*ratio^2'')) (1 / 2) = 0.01"
    by (simp add: fast_path_eval substitute_lambda_def allowed_chars_def other_digit_ranges_def)
  then show ?thesis by simp
qed

text \<open>
  C6, amended. \<open>not_a_formula!!\<close> at ratio 0.5 gives 0.01; \<open>0.02\<close> gives 0.02 at every
  ratio; and with the free variable spelt as the program spells it, \<open>0.01*lambda^2\<close> (or
  the same with U+03BB) at ratio 0.5 gives 0.01 * 0.25 = 0.0025: the variable is
  substituted, \<open>^\<close> is exponentiation, and nothing is truncated in the evaluator.
\<close>

theorem gain_examples:
  "parse_k_expression (Some (ascii ''not_a_formula!!'')) 0.5 = 0.01
   \<and> parse_k_expression (Some (ascii ''0.02'')) r = 0.02
   \<and> parse_k_expression (Some (ascii ''0.01*lambda^2'')) 0.5 = 0.0025
   \<and> parse_k_expression (Some (ascii ''0.01*'' @ 955 # ascii ''^2'')) 0.5 = 0.0025"
  using gain_not_a_formula [of "1 / 2"] gain_002 [of r] gain_lambda gain_glyph by simp

section \<open>The parser consumes its input\<close>

lemma parser_rest_le:
  "p_sum ts = Inr (a, r) \<Longrightarrow> length r \<le> length ts"
  "p_sum_rest a0 ts = Inr (a, r) \<Longrightarrow> length r \<le> length ts"
  "p_term ts = Inr (a, r) \<Longrightarrow> length r \<le> length ts"
  "p_term_rest a0 ts = Inr (a, r) \<Longrightarrow> length r \<le> length ts"
  "p_factor ts = Inr (a, r) \<Longrightarrow> length r \<le> length ts"
  "p_power ts = Inr (a, r) \<Longrightarrow> length r \<le> length ts"
  "p_atom ts = Inr (a, r) \<Longrightarrow> length r \<le> length ts"
proof (induction ts and a0 ts and ts and a0 ts and ts and ts and ts
    arbitrary: a r and a r and a r and a r and a r and a r and a r
    rule: p_sum_p_sum_rest_p_term_p_term_rest_p_factor_p_power_p_atom.induct)
  case (1 ts)
  from "1.prems" obtain b q where t: "p_term ts = Inr (b, q)" and le: "length q \<le> length ts"
    and rest: "p_sum_rest b q = Inr (a, r)"
    by (subst (asm) p_sum.simps) (auto split: sum.splits prod.splits if_splits)
  from "1.IH"(2) [OF t refl le rest] le show ?case by simp
next
  case (2 a0)
  then show ?case by (simp del: p_sum.simps p_term.simps p_power.simps)
next
  case (3 a0 t ts)
  show ?case
  proof (cases "t = PLUS \<or> t = MINUS")
    case True
    with "3.prems" obtain b q where p: "p_term ts = Inr (b, q)" and le: "length q \<le> length ts"
      and rest: "p_sum_rest (BinOp a0 (if t = PLUS then Add else Sub) b) q = Inr (a, r)"
      by (auto split: sum.splits prod.splits if_splits
          simp del: p_sum.simps p_term.simps p_power.simps)
    from "3.IH"(2) [OF True p refl le rest] le show ?thesis by simp
  next
    case False
    with "3.prems" show ?thesis
      by (auto simp del: p_sum.simps p_term.simps p_power.simps)
  qed
next
  case (4 ts)
  from "4.prems" obtain b q where t: "p_factor ts = Inr (b, q)" and le: "length q \<le> length ts"
    and rest: "p_term_rest b q = Inr (a, r)"
    by (subst (asm) p_term.simps) (auto split: sum.splits prod.splits if_splits
        simp del: p_sum.simps p_term.simps p_power.simps)
  from "4.IH"(2) [OF t refl le rest] le show ?case by simp
next
  case (5 a0)
  then show ?case by (simp del: p_sum.simps p_term.simps p_power.simps)
next
  case (6 a0 t ts)
  show ?case
  proof (cases "t = STAR \<or> t = SLASH \<or> t = DOUBLESLASH")
    case True
    with "6.prems" obtain b q where p: "p_factor ts = Inr (b, q)" and le: "length q \<le> length ts"
      and rest: "p_term_rest
                  (BinOp a0 (if t = STAR then Mult else if t = SLASH then Div else FloorDiv) b) q
                 = Inr (a, r)"
      by (auto split: sum.splits prod.splits if_splits
          simp del: p_sum.simps p_term.simps p_power.simps)
    from "6.IH"(2) [OF True p refl le rest] le show ?thesis by simp
  next
    case False
    with "6.prems" show ?thesis
      by (auto simp del: p_sum.simps p_term.simps p_power.simps)
  qed
next
  case 7
  then show ?case by (simp del: p_sum.simps p_term.simps p_power.simps)
next
  case (8 t ts)
  show ?case
  proof (cases "t = PLUS \<or> t = MINUS")
    case True
    with "8.prems" obtain b where p: "p_factor ts = Inr (b, r)"
      by (auto split: sum.splits prod.splits if_splits
          simp del: p_sum.simps p_term.simps p_power.simps)
    from "8.IH"(1) [OF True p] show ?thesis by simp
  next
    case False
    with "8.prems" have "p_power (t # ts) = Inr (a, r)"
      by (simp del: p_sum.simps p_term.simps p_power.simps)
    from "8.IH"(2) [OF False this] show ?thesis .
  qed
next
  case (9 ts)
  from "9.prems" obtain b q where at: "p_atom ts = Inr (b, q)"
    by (subst (asm) p_power.simps) (auto split: sum.splits prod.splits)
  from "9.IH"(1) [OF at] have le: "length q \<le> length ts" .
  show ?case
  proof (cases q)
    case Nil
    with "9.prems" at show ?thesis
      by (subst (asm) p_power.simps) simp
  next
    case (Cons t q')
    show ?thesis
    proof (cases "t = DOUBLESTAR")
      case True
      from le Cons have lt: "length q' < length ts" by simp
      with "9.prems" at Cons True obtain c where f: "p_factor q' = Inr (c, r)"
        by (subst (asm) p_power.simps)
          (auto split: sum.splits prod.splits simp del: p_sum.simps p_term.simps p_power.simps)
      from "9.IH"(2) [OF at refl Cons True lt f] lt show ?thesis by simp
    next
      case False
      with "9.prems" at Cons have "r = q"
        by (subst (asm) p_power.simps) simp
      with le show ?thesis by simp
    qed
  qed
next
  case 10
  then show ?case by (simp del: p_sum.simps p_term.simps p_power.simps)
next
  case (11 t ts)
  show ?case
  proof (cases t)
    case (NUMBER v)
    with "11.prems" show ?thesis
      by (auto simp del: p_sum.simps p_term.simps p_power.simps)
  next
    case LPAR
    with "11.prems" obtain b q where s: "p_sum ts = Inr (b, q)" and q: "q = RPAR # r"
      by (auto split: sum.splits prod.splits list.splits if_splits
          simp del: p_sum.simps p_term.simps p_power.simps)
    from "11.IH" [OF LPAR s] q show ?thesis by simp
  qed (use "11.prems" in \<open>auto simp del: p_sum.simps p_term.simps p_power.simps\<close>)
qed

section \<open>The fallback of the gain expression\<close>

lemma str_replace_char_empty: "str_replace [x] [] s = filter (\<lambda>c. c \<noteq> x) s"
  by (induction s) auto

lemma str_replace_absent:
  assumes "old \<noteq> []" "hd old \<notin> set s"
  shows "str_replace old new s = s"
  using assms(2)
proof (induction s)
  case Nil
  then show ?case by simp
next
  case (Cons c s)
  from assms(1) obtain x xs where old: "old = x # xs" by (cases old) auto
  with Cons.prems have "x \<noteq> c" by auto
  with old have "take (length old) (c # s) \<noteq> old" by auto
  with Cons show ?case by simp
qed

lemma ascii_chars: "ascii '' '' = [32]" "ascii ''^'' = [94]" "ascii ''.'' = [46]"
  "ascii ''-'' = [45]" "ascii ''lambda'' = [108, 97, 109, 98, 100, 97]"
  by (simp_all add: ascii_def)

lemma not_digit_lambda: "\<not> is_digit_char 108" "\<not> is_digit_char 955"
  by (simp_all add: is_digit_char_def decimal_value_def decimal_ranges_def
      other_digit_ranges_def in_range_def)

lemma ascii_digit_is_digit: "is_ascii_digit c \<Longrightarrow> is_digit_char c"
  by (simp add: is_ascii_digit_def is_digit_char_def decimal_value_def decimal_ranges_def
      in_range_def)

lemma numeric_shortcut_chars:
  "numeric_shortcut expr \<longleftrightarrow>
     list_ex (\<lambda>c. c \<noteq> 46 \<and> c \<noteq> 45) expr
     \<and> list_all (\<lambda>c. is_digit_char c \<or> c = 46 \<or> c = 45) expr"
  by (auto simp: numeric_shortcut_def ascii_chars str_replace_char_empty str_isdigit_def
      list_all_iff list_ex_iff filter_empty_conv)

lemma substitute_lambda_absent:
  assumes "108 \<notin> set expr" "955 \<notin> set expr"
  shows "substitute_lambda r expr = expr"
  using assms by (simp add: substitute_lambda_def Let_def ascii_chars str_replace_absent)

lemma allowed_point_minus: "46 \<in> set allowed_chars" "45 \<in> set allowed_chars"
  by (simp_all add: allowed_chars_def ascii_def)

text \<open>
  C5, as stated, fails: the shortcut for plain numbers of line 76 comes before the check of
  the characters, and \<open>str.isdigit\<close> accepts the digits of every script. The one-letter
  expression U+0663 (ARABIC-INDIC DIGIT THREE, code point 1635) is outside the allowed
  characters, no substitution changes it, and \<open>float\<close> returns it as 3.0, not 0.01.
\<close>

theorem non_ascii_digit_is_returned:
  "\<not> list_all (\<lambda>c. c \<in> set allowed_chars) (substitute_lambda 0.5 (clean_expression [1635]))
   \<and> parse_k_expression (Some [1635]) 0.5 = 3
   \<and> parse_k_expression (Some [1635]) 0.5 \<noteq> 0.01"
proof -
  have "parse_k_expression (Some [1635]) (1 / 2) = 3"
    by (simp add: fast_path_eval)
  moreover have "\<not> list_all (\<lambda>c. c \<in> set allowed_chars)
      (substitute_lambda (1 / 2) (clean_expression [1635]))"
    by (simp add: substitute_lambda_def clean_expression_def Let_def ascii_def str_strip_def
        whitespace_def allowed_chars_def)
  ultimately show ?thesis by simp
qed

section \<open>Strings of digits, points and minus signs\<close>

lemma dropWhile_none: "\<forall>c \<in> set s. \<not> P c \<Longrightarrow> dropWhile P s = s"
  by (cases s) auto

lemma str_strip_no_whitespace:
  assumes "\<forall>c \<in> set s. c \<notin> set whitespace"
  shows "str_strip s = s"
  using assms by (simp add: str_strip_def dropWhile_none)

lemma plain_not_whitespace:
  "is_ascii_digit c \<or> c = 46 \<or> c = 45 \<Longrightarrow> c \<notin> set whitespace"
  by (auto simp: is_ascii_digit_def whitespace_def)

lemma clean_expression_plain:
  assumes "list_all (\<lambda>c. is_ascii_digit c \<or> c = 46 \<or> c = 45) s"
  shows "clean_expression s = s"
proof -
  from assms have a: "\<forall>c \<in> set s. is_ascii_digit c \<or> c = 46 \<or> c = 45"
    by (simp add: list_all_iff)
  then have "str_strip s = s"
    by (intro str_strip_no_whitespace ballI plain_not_whitespace) simp
  moreover have "32 \<notin> set s" "94 \<notin> set s"
    using a by (auto simp: is_ascii_digit_def)
  ultimately show ?thesis
    by (simp add: clean_expression_def Let_def ascii_chars str_replace_absent)
qed

lemma lex_points_minus:
  assumes "list_all (\<lambda>c. c = 46 \<or> c = 45) s"
  shows "lex s = (if 46 \<in> set s then Inl SyntaxError else Inr (replicate (length s) MINUS))"
  using assms
proof (induction s)
  case Nil
  then show ?case by simp
next
  case (Cons c s)
  then have IH: "lex s = (if 46 \<in> set s then Inl SyntaxError else Inr (replicate (length s) MINUS))"
    by simp
  from Cons.prems have c: "c = 46 \<or> c = 45" by simp
  show ?case
  proof (cases "c = 45")
    case True
    then show ?thesis by (simp add: IH is_ascii_digit_def emit_def)
  next
    case False
    with c have c46: "c = 46" by simp
    from Cons.prems have "s \<noteq> [] \<Longrightarrow> \<not> is_ascii_digit (hd s)"
      by (cases s) (auto simp: is_ascii_digit_def)
    with c46 show ?thesis by (auto simp: is_ascii_digit_def)
  qed
qed

lemma p_factor_minus: "p_factor (replicate n MINUS) = Inl SyntaxError"
  by (induction n) simp_all

lemma p_sum_minus: "p_sum (replicate n MINUS) = Inl SyntaxError"
  by (simp add: p_factor_minus)

lemma py_eval_points_minus:
  assumes "list_all (\<lambda>c. c = 46 \<or> c = 45) s"
  shows "py_eval s = Inl SyntaxError"
  by (simp add: py_eval_def lex_points_minus [OF assms] p_factor_minus)

lemma plain_invalid_gives_default:
  assumes plain: "list_all (\<lambda>c. is_ascii_digit c \<or> c = 46 \<or> c = 45) s"
    and bad: "float_of_str s = Inl ValueError"
  shows "parse_k_expression (Some s) r = 0.01"
proof (cases "numeric_shortcut s")
  case True
  with bad show ?thesis
    by (simp add: parse_k_expression_def parse_k_expression_try_def Let_def
        clean_expression_plain [OF plain])
next
  case False
  from plain have "list_all (\<lambda>c. is_digit_char c \<or> c = 46 \<or> c = 45) s"
    by (auto simp: list_all_iff ascii_digit_is_digit)
  with False have pm: "list_all (\<lambda>c. c = 46 \<or> c = 45) s"
    by (auto simp: numeric_shortcut_chars list_all_iff list_ex_iff)
  then have "108 \<notin> set s" "955 \<notin> set s" by (auto simp: list_all_iff)
  then have "substitute_lambda r s = s" by (rule substitute_lambda_absent)
  with False py_eval_points_minus [OF pm] show ?thesis
    by (simp add: parse_k_expression_def parse_k_expression_try_def Let_def
        clean_expression_plain [OF plain])
qed

lemma shortcut_taken:
  assumes plain: "list_all (\<lambda>c. is_ascii_digit c \<or> c = 46 \<or> c = 45) s"
    and digit: "list_ex is_ascii_digit s"
  shows "numeric_shortcut (clean_expression s)"
proof -
  from digit obtain d where "d \<in> set s" "is_ascii_digit d"
    by (auto simp: list_ex_iff)
  then have "d \<in> set s" "d \<noteq> 46 \<and> d \<noteq> 45"
    by (simp_all add: is_ascii_digit_def)
  then have "list_ex (\<lambda>c. c \<noteq> 46 \<and> c \<noteq> 45) s"
    unfolding list_ex_iff by (rule bexI [rotated])
  moreover from plain have "list_all (\<lambda>c. is_digit_char c \<or> c = 46 \<or> c = 45) s"
    by (auto simp: list_all_iff ascii_digit_is_digit)
  ultimately show ?thesis
    by (simp add: clean_expression_plain [OF plain] numeric_shortcut_chars)
qed

lemma eval_three_minus_one: "py_eval (ascii ''3-1'') = Inr 2"
  by (simp add: py_eval_def ascii_def lex_eval)

lemma float_three_minus_one: "float_of_str (ascii ''3-1'') = Inl ValueError"
  by (simp add: float_of_str_def unsigned_value_def Let_def ascii_def decimal_value_def
      decimal_ranges_def in_range_def)

lemma float_one_two_three: "float_of_str (ascii ''1.2.3'') = Inl ValueError"
  by (simp add: float_of_str_def unsigned_value_def Let_def ascii_def decimal_value_def
      decimal_ranges_def in_range_def)

text \<open>
  C10. For every expression made only of the digits 0 to 9, points and minus signs that
  \<open>float\<close> does not accept as a decimal literal (such as \<open>3-1\<close> or \<open>1.2.3\<close>), the gain
  evaluator returns the default 0.01 at every ratio. When the expression has a digit it
  takes the shortcut for plain numbers, which looks only at which characters occur, and
  the failure of \<open>float\<close> falls through to the default: the arithmetic expression \<open>3-1\<close>
  is never evaluated to 2.
\<close>

theorem plain_invalid_literal_falls_back:
  assumes "list_all (\<lambda>c. is_ascii_digit c \<or> c = 46 \<or> c = 45) s"
    and "float_of_str s = Inl ValueError"
  shows "parse_k_expression (Some s) r = 0.01
    \<and> (list_ex is_ascii_digit s \<longrightarrow> numeric_shortcut (clean_expression s))"
  using assms plain_invalid_gives_default [of s r] shortcut_taken [of s] by blast

theorem plain_invalid_literal_falls_back_witness:
  "list_all (\<lambda>c. is_ascii_digit c \<or> c = 46 \<or> c = 45) (ascii ''3-1'')
   \<and> float_of_str (ascii ''3-1'') = Inl ValueError
   \<and> list_ex is_ascii_digit (ascii ''3-1'')
   \<and> numeric_shortcut (clean_expression (ascii ''3-1''))
   \<and> parse_k_expression (Some (ascii ''3-1'')) 0.5 = 0.01
   \<and> py_eval (ascii ''3-1'') = Inr 2
   \<and> list_all (\<lambda>c. is_ascii_digit c \<or> c = 46 \<or> c = 45) (ascii ''1.2.3'')
   \<and> float_of_str (ascii ''1.2.3'') = Inl ValueError
   \<and> parse_k_expression (Some (ascii ''1.2.3'')) 0.5 = 0.01"
proof -
  have a: "list_all (\<lambda>c. is_ascii_digit c \<or> c = 46 \<or> c = 45) (ascii ''3-1'')"
    "list_ex is_ascii_digit (ascii ''3-1'')"
    "list_all (\<lambda>c. is_ascii_digit c \<or> c = 46 \<or> c = 45) (ascii ''1.2.3'')"
    by (simp_all add: ascii_def is_ascii_digit_def)
  from a float_three_minus_one float_one_two_three eval_three_minus_one show ?thesis
    using plain_invalid_literal_falls_back [of "ascii ''3-1''" "0.5"]
      plain_invalid_literal_falls_back [of "ascii ''1.2.3''" "0.5"]
    by blast
qed

section \<open>Rounding to double precision\<close>

lemma round_half_even_of_int [simp]: "round_half_even (of_int n) = n"
  by (simp add: round_half_even_def)

lemma round_half_even_bounds:
  "\<lfloor>q\<rfloor> \<le> round_half_even q" "round_half_even q \<le> \<lfloor>q\<rfloor> + 1"
  by (simp_all add: round_half_even_def Let_def)

lemma round_half_even_error: "\<bar>of_int (round_half_even q) - q\<bar> \<le> 1 / 2"
proof -
  have "of_int \<lfloor>q\<rfloor> \<le> q" "q < of_int \<lfloor>q\<rfloor> + 1" by linarith+
  then show ?thesis
    by (auto simp: round_half_even_def Let_def abs_le_iff)
qed

lemma round_half_even_mono:
  assumes "p \<le> q"
  shows "round_half_even p \<le> round_half_even q"
proof (cases "\<lfloor>p\<rfloor> = \<lfloor>q\<rfloor>")
  case True
  with assms show ?thesis
    by (auto simp: round_half_even_def Let_def)
next
  case False
  with assms have "\<lfloor>p\<rfloor> + 1 \<le> \<lfloor>q\<rfloor>" using floor_mono [OF assms] by linarith
  with round_half_even_bounds(2) [of p] round_half_even_bounds(1) [of q]
  show ?thesis by linarith
qed

lemma round_half_even_minus: "round_half_even (- q) = - round_half_even q"
proof (cases "of_int \<lfloor>q\<rfloor> = q")
  case True
  have "round_half_even (of_int (- \<lfloor>q\<rfloor>)) = - \<lfloor>q\<rfloor>"
    by (rule round_half_even_of_int)
  moreover have "round_half_even (of_int \<lfloor>q\<rfloor>) = \<lfloor>q\<rfloor>"
    by (rule round_half_even_of_int)
  ultimately show ?thesis using True by simp
next
  case False
  have "of_int \<lfloor>q\<rfloor> \<le> q" "q < of_int \<lfloor>q\<rfloor> + 1" by linarith+
  with False have lt: "of_int \<lfloor>q\<rfloor> < q" by (metis order_le_less)
  have f: "\<lfloor>- q\<rfloor> = - \<lfloor>q\<rfloor> - 1"
  proof (rule floor_unique)
    show "of_int (- \<lfloor>q\<rfloor> - 1) \<le> - q" by simp linarith
    show "- q < of_int (- \<lfloor>q\<rfloor> - 1) + 1" using lt by simp
  qed
  have e: "even (- \<lfloor>q\<rfloor> - 1) \<longleftrightarrow> odd \<lfloor>q\<rfloor>" by simp
  show ?thesis
    unfolding round_half_even_def Let_def f e
    using lt \<open>q < of_int \<lfloor>q\<rfloor> + 1\<close> by auto
qed

lemma binade_unique:
  assumes "2 powi e \<le> \<bar>x\<bar>" "\<bar>x\<bar> < 2 powi (e + 1)"
  shows "\<lfloor>log 2 \<bar>x\<bar>\<rfloor> = e"
proof -
  have "0 < (2::real) powi e" by simp
  with assms(1) have pos: "0 < \<bar>x\<bar>" by linarith
  have p1: "(2::real) powr of_int e = 2 powi e"
    using powr_real_of_int' [of "2::real" e] by simp
  have "(2::real) powr of_int (e + 1) = 2 powi (e + 1)"
    using powr_real_of_int' [of "2::real" "e + 1"] by linarith
  then have p2: "(2::real) powr (of_int e + 1) = 2 powi (e + 1)" by simp
  from assms have "2 powr of_int e \<le> \<bar>x\<bar> \<and> \<bar>x\<bar> < 2 powr (of_int e + 1)"
    unfolding p1 p2 by simp
  with pos show ?thesis by (simp add: floor_log_eq_powr_iff)
qed

lemma binade:
  assumes "x \<noteq> 0"
  shows "2 powi \<lfloor>log 2 \<bar>x\<bar>\<rfloor> \<le> \<bar>x\<bar>" "\<bar>x\<bar> < 2 powi (\<lfloor>log 2 \<bar>x\<bar>\<rfloor> + 1)"
proof -
  from assms have pos: "0 < \<bar>x\<bar>" by simp
  have p: "(2::real) powr of_int k = 2 powi k" for k
    by (simp add: powr_real_of_int')
  from pos have "2 powr of_int \<lfloor>log 2 \<bar>x\<bar>\<rfloor> \<le> \<bar>x\<bar> \<and> \<bar>x\<bar> < 2 powr (of_int \<lfloor>log 2 \<bar>x\<bar>\<rfloor> + 1)"
    using floor_log_eq_powr_iff [of "\<bar>x\<bar>" 2 "\<lfloor>log 2 \<bar>x\<bar>\<rfloor>"] by simp
  then have a: "2 powr of_int \<lfloor>log 2 \<bar>x\<bar>\<rfloor> \<le> \<bar>x\<bar>"
    and b: "\<bar>x\<bar> < 2 powr of_int (\<lfloor>log 2 \<bar>x\<bar>\<rfloor> + 1)" by simp_all
  from a show "2 powi \<lfloor>log 2 \<bar>x\<bar>\<rfloor> \<le> \<bar>x\<bar>" unfolding p .
  from b show "\<bar>x\<bar> < 2 powi (\<lfloor>log 2 \<bar>x\<bar>\<rfloor> + 1)" unfolding p .
qed

lemma ulp_exponent_minus [simp]: "ulp_exponent (- x) = ulp_exponent x"
  by (simp add: ulp_exponent_def)

lemma ulp_exponent_ge: "- 1074 \<le> ulp_exponent x"
  by (simp add: ulp_exponent_def)

lemma ulp_exponent_upper:
  assumes "x \<noteq> 0"
  shows "\<bar>x\<bar> < 2 powi (ulp_exponent x + 53)"
proof -
  have "\<lfloor>log 2 \<bar>x\<bar>\<rfloor> + 1 \<le> ulp_exponent x + 53" by (simp add: ulp_exponent_def)
  then have "(2::real) powi (\<lfloor>log 2 \<bar>x\<bar>\<rfloor> + 1) \<le> 2 powi (ulp_exponent x + 53)"
    by (intro power_int_increasing) simp_all
  with binade(2) [OF assms] show ?thesis by linarith
qed

lemma ulp_exponent_lower:
  assumes "x \<noteq> 0" "- 1074 < ulp_exponent x"
  shows "2 powi (ulp_exponent x + 52) \<le> \<bar>x\<bar>"
proof -
  from assms(2) have "ulp_exponent x + 52 = \<lfloor>log 2 \<bar>x\<bar>\<rfloor>"
    by (simp add: ulp_exponent_def max_def split: if_splits)
  with binade(1) [OF assms(1)] show ?thesis by simp
qed

lemma ulp_exponent_mono:
  assumes "0 < \<bar>x\<bar>" "\<bar>x\<bar> \<le> \<bar>y\<bar>"
  shows "ulp_exponent x \<le> ulp_exponent y"
proof -
  from assms have "log 2 \<bar>x\<bar> \<le> log 2 \<bar>y\<bar>" by simp
  then have "\<lfloor>log 2 \<bar>x\<bar>\<rfloor> \<le> \<lfloor>log 2 \<bar>y\<bar>\<rfloor>" by (rule floor_mono)
  then show ?thesis by (simp add: ulp_exponent_def)
qed

lemma ulp_exponent_normal:
  assumes "2 powi e \<le> \<bar>x\<bar>" "\<bar>x\<bar> < 2 powi (e + 1)" "- 1022 \<le> e"
  shows "ulp_exponent x = e - 52"
  using binade_unique [OF assms(1,2)] assms(3) by (simp add: ulp_exponent_def)

lemma nearest_double_zero [simp]: "nearest_double 0 = 0"
  by (simp add: nearest_double_def)

lemma nearest_double_minus: "nearest_double (- x) = - nearest_double x"
  by (simp add: nearest_double_def round_half_even_minus)

lemma nearest_double_in_binade:
  assumes "2 powi e \<le> \<bar>x\<bar>" "\<bar>x\<bar> < 2 powi (e + 1)" "- 1022 \<le> e"
  shows "nearest_double x = of_int (round_half_even (x / 2 powi (e - 52))) * 2 powi (e - 52)"
proof -
  have "0 < (2::real) powi e" by simp
  with assms(1) have "0 < \<bar>x\<bar>" by linarith
  then have "x \<noteq> 0" by simp
  then show ?thesis
    by (simp add: nearest_double_def ulp_exponent_normal [OF assms])
qed

lemma nearest_double_nonneg:
  assumes "0 \<le> x"
  shows "0 \<le> nearest_double x"
proof (cases "x = 0")
  case True
  then show ?thesis by simp
next
  case False
  have "0 \<le> x / 2 powi ulp_exponent x" using assms by simp
  then have "round_half_even 0 \<le> round_half_even (x / 2 powi ulp_exponent x)"
    by (rule round_half_even_mono)
  then have "0 \<le> round_half_even (x / 2 powi ulp_exponent x)"
    using round_half_even_of_int [of 0] by simp
  with False show ?thesis by (simp add: nearest_double_def)
qed

lemma nearest_double_error:
  "\<bar>nearest_double x - x\<bar> \<le> 2 powi ulp_exponent x / 2"
proof (cases "x = 0")
  case True
  then show ?thesis by simp
next
  case False
  let ?u = "(2::real) powi ulp_exponent x"
  have u: "0 < ?u" by simp
  have "nearest_double x - x = (of_int (round_half_even (x / ?u)) - x / ?u) * ?u"
    using False u by (simp add: nearest_double_def field_simps)
  then have "\<bar>nearest_double x - x\<bar> = \<bar>of_int (round_half_even (x / ?u)) - x / ?u\<bar> * ?u"
    using u by (simp add: abs_mult)
  also have "\<dots> \<le> 1 / 2 * ?u"
    using round_half_even_error [of "x / ?u"] u by (intro mult_right_mono) simp_all
  finally show ?thesis by simp
qed

lemma nearest_double_relative_error:
  assumes "2 powi (- 1022) \<le> \<bar>x\<bar>"
  shows "\<bar>nearest_double x - x\<bar> \<le> \<bar>x\<bar> / 2 ^ 53"
proof -
  have "0 < (2::real) powi (- 1022)" by (rule zero_less_power_int) simp
  with assms have "0 < \<bar>x\<bar>" by linarith
  then have nz: "x \<noteq> 0" by simp
  let ?e = "\<lfloor>log 2 \<bar>x\<bar>\<rfloor>"
  have "- 1022 \<le> ?e"
  proof (rule ccontr)
    assume "\<not> - 1022 \<le> ?e"
    then have "?e + 1 \<le> - 1022" by linarith
    then have "(2::real) powi (?e + 1) \<le> 2 powi (- 1022)"
      by (intro power_int_increasing) simp_all
    with binade(2) [OF nz] assms show False by linarith
  qed
  then have "- 1074 \<le> ?e - 52" by linarith
  then have E: "ulp_exponent x = ?e - 52" unfolding ulp_exponent_def by (rule max_absorb1)
  have "(2::real) powi (?e - 52) = 2 powi ?e / 2 ^ 52"
    using power_int_diff [of "2::real" ?e 52] by simp
  then have "(2::real) powi ulp_exponent x / 2 = 2 powi ?e / 2 ^ 53" unfolding E by simp
  also have "\<dots> \<le> \<bar>x\<bar> / 2 ^ 53"
    using binade(1) [OF nz] by (simp add: divide_right_mono)
  finally show ?thesis using nearest_double_error [of x] by linarith
qed

lemma nearest_double_pos_mono:
  assumes "0 < x" "x \<le> y"
  shows "nearest_double x \<le> nearest_double y"
proof -
  from assms have xn: "x \<noteq> 0" and yn: "y \<noteq> 0" and ypos: "0 < y" by simp_all
  let ?a = "ulp_exponent x" and ?b = "ulp_exponent y"
  have ab: "?a \<le> ?b" using assms by (intro ulp_exponent_mono) simp_all
  have nx: "nearest_double x = of_int (round_half_even (x / 2 powi ?a)) * 2 powi ?a"
    using xn by (simp add: nearest_double_def)
  have ny: "nearest_double y = of_int (round_half_even (y / 2 powi ?b)) * 2 powi ?b"
    using yn by (simp add: nearest_double_def)
  show ?thesis
  proof (cases "?a = ?b")
    case True
    have "x / 2 powi ?b \<le> y / 2 powi ?b" using assms(2) by (simp add: divide_right_mono)
    then have "round_half_even (x / 2 powi ?b) \<le> round_half_even (y / 2 powi ?b)"
      by (rule round_half_even_mono)
    then have "real_of_int (round_half_even (x / 2 powi ?b)) * 2 powi ?b
        \<le> real_of_int (round_half_even (y / 2 powi ?b)) * 2 powi ?b"
      by (intro mult_right_mono) simp_all
    with nx ny True show ?thesis by simp
  next
    case False
    with ab have lt: "?a < ?b" by simp
    then have b: "- 1074 < ?b" using ulp_exponent_ge [of x] by linarith
    have "\<bar>x\<bar> < 2 powi (?a + 53)" by (rule ulp_exponent_upper [OF xn])
    then have "x / 2 powi ?a < 2 powi (?a + 53) / 2 powi ?a"
      using assms(1) by (simp add: divide_strict_right_mono)
    also have "(2::real) powi (?a + 53) / 2 powi ?a = 2 ^ 53"
      by (simp add: power_int_add)
    finally have "x / 2 powi ?a \<le> of_int (2 ^ 53)" by simp
    then have "round_half_even (x / 2 powi ?a) \<le> round_half_even (of_int (2 ^ 53))"
      by (rule round_half_even_mono)
    then have "round_half_even (x / 2 powi ?a) \<le> 2 ^ 53"
      unfolding round_half_even_of_int .
    then have "real_of_int (round_half_even (x / 2 powi ?a)) \<le> 2 ^ 53"
      by (metis of_int_le_iff of_int_numeral of_int_power)
    then have "real_of_int (round_half_even (x / 2 powi ?a)) * 2 powi ?a \<le> 2 ^ 53 * 2 powi ?a"
      by (intro mult_right_mono) simp_all
    also have "\<dots> = 2 powi (?a + 53)" by (simp add: power_int_add)
    also have "\<dots> \<le> 2 powi (?b + 52)" using lt by (intro power_int_increasing) simp_all
    finally have up: "nearest_double x \<le> 2 powi (?b + 52)" unfolding nx .
    have "2 powi (?b + 52) \<le> \<bar>y\<bar>" by (rule ulp_exponent_lower [OF yn b])
    then have "2 powi (?b + 52) / 2 powi ?b \<le> y / 2 powi ?b"
      using ypos by (simp add: divide_right_mono)
    moreover have "(2::real) powi (?b + 52) / 2 powi ?b = 2 ^ 52"
      by (simp add: power_int_add)
    ultimately have "of_int (2 ^ 52) \<le> y / 2 powi ?b" by simp
    then have "round_half_even (of_int (2 ^ 52)) \<le> round_half_even (y / 2 powi ?b)"
      by (rule round_half_even_mono)
    then have "2 ^ 52 \<le> round_half_even (y / 2 powi ?b)"
      unfolding round_half_even_of_int .
    then have "2 ^ 52 \<le> real_of_int (round_half_even (y / 2 powi ?b))"
      by (metis of_int_le_iff of_int_numeral of_int_power)
    then have "2 ^ 52 * 2 powi ?b \<le> real_of_int (round_half_even (y / 2 powi ?b)) * 2 powi ?b"
      by (intro mult_right_mono) simp_all
    moreover have "2 ^ 52 * 2 powi ?b = (2::real) powi (?b + 52)" by (simp add: power_int_add)
    ultimately have "2 powi (?b + 52) \<le> nearest_double y" unfolding ny by linarith
    with up show ?thesis by linarith
  qed
qed

lemma nearest_double_mono:
  assumes "x \<le> y"
  shows "nearest_double x \<le> nearest_double y"
proof -
  consider "0 < x" | "x \<le> 0" "0 \<le> y" | "y < 0" by linarith
  then show ?thesis
  proof cases
    case 1
    then show ?thesis using assms by (rule nearest_double_pos_mono)
  next
    case 2
    have "0 \<le> nearest_double (- x)" using 2(1) by (intro nearest_double_nonneg) simp
    then have "nearest_double x \<le> 0" by (simp add: nearest_double_minus)
    moreover have "0 \<le> nearest_double y" using 2(2) by (rule nearest_double_nonneg)
    ultimately show ?thesis by linarith
  next
    case 3
    then have "0 < - y" "- y \<le> - x" using assms by simp_all
    then have "nearest_double (- y) \<le> nearest_double (- x)" by (rule nearest_double_pos_mono)
    then show ?thesis by (simp add: nearest_double_minus)
  qed
qed

lemma nearest_double_of_int:
  assumes "\<bar>n\<bar> < 2 ^ 53"
  shows "nearest_double (of_int n) = of_int n"
proof (cases "n = 0")
  case True
  then show ?thesis by simp
next
  case False
  let ?x = "real_of_int n"
  let ?E = "ulp_exponent ?x"
  from False have xn: "?x \<noteq> 0" by simp
  from False have "1 \<le> \<bar>n\<bar>" by linarith
  have "\<lfloor>log 2 \<bar>?x\<bar>\<rfloor> < 53"
  proof (rule ccontr)
    assume "\<not> \<lfloor>log 2 \<bar>?x\<bar>\<rfloor> < 53"
    then have "53 \<le> \<lfloor>log 2 \<bar>?x\<bar>\<rfloor>" by linarith
    then have "(2::real) powi 53 \<le> 2 powi \<lfloor>log 2 \<bar>?x\<bar>\<rfloor>"
      by (intro power_int_increasing) simp_all
    with binade(1) [OF xn] have "(2::real) powi 53 \<le> \<bar>?x\<bar>" by linarith
    moreover have "\<bar>?x\<bar> < 2 ^ 53" using assms
      by (metis of_int_abs of_int_less_iff of_int_numeral of_int_power)
    ultimately show False by simp
  qed
  then have "\<lfloor>log 2 \<bar>?x\<bar>\<rfloor> - 52 \<le> 0" by linarith
  then have E0: "?E \<le> 0" unfolding ulp_exponent_def by simp
  define k where "k = nat (- ?E)"
  have E: "?E = - int k" using E0 by (simp add: k_def)
  have p: "(2::real) powi ?E = 1 / 2 ^ k" unfolding E by (simp add: power_int_minus field_simps)
  have "?x / 2 powi ?E = of_int (n * 2 ^ k)" unfolding p by simp
  then have "round_half_even (?x / 2 powi ?E) = n * 2 ^ k"
    by (simp only: round_half_even_of_int)
  then have "nearest_double ?x = of_int (n * 2 ^ k) * (1 / 2 ^ k)"
    using xn unfolding nearest_double_def p by simp
  then show ?thesis by simp
qed

section \<open>The truncation in double precision\<close>

lemma py_bind_Inr: "py_bind r f = Inr y \<longleftrightarrow> (\<exists>x. r = Inr x \<and> f x = Inr y)"
  by (cases r) (simp_all add: py_bind_def)

lemma py_bind_simps [simp]: "py_bind (Inr x) f = f x" "py_bind (Inl e) f = Inl e"
  by (simp_all add: py_bind_def)

lemma fl_Finite: "fl x = Finite r \<longleftrightarrow> r = nearest_double x \<and> \<bar>nearest_double x\<bar> < 2 ^ 1024"
  by (auto simp: fl_def Let_def)

lemma fl_zero [simp]: "fl 0 = Finite 0"
  by (simp add: fl_def)

lemma fl_of_int: "\<bar>n\<bar> < 2 ^ 53 \<Longrightarrow> fl (of_int n) = Finite (of_int n)"
proof -
  assume a: "\<bar>n\<bar> < 2 ^ 53"
  then have "\<bar>real_of_int n\<bar> < 2 ^ 53"
    by (metis of_int_abs of_int_less_iff of_int_numeral of_int_power)
  moreover have "(2::real) ^ 53 \<le> 2 ^ 1024" by (rule power_increasing) simp_all
  ultimately have "\<bar>real_of_int n\<bar> < 2 ^ 1024" by linarith
  then show ?thesis by (simp add: fl_Finite nearest_double_of_int [OF a])
qed

lemma math_floor_Inr: "math_floor x = Inr n \<longleftrightarrow> (\<exists>v. x = Finite v \<and> n = \<lfloor>v\<rfloor>)"
  by (cases x) (auto simp: math_floor_def)

lemma int_truediv_10: "int_truediv n 10 = Inr t \<longleftrightarrow> fl (of_int n / 10) = Finite t"
  by (cases "fl (of_int n / 10)") (auto simp: int_truediv_def)

lemma fmul_Finite_left:
  "fmul x (Finite b) = Finite r \<longleftrightarrow> (\<exists>a. x = Finite a \<and> fl (a * b) = Finite r)"
  by (cases x) (auto simp: signed_inf_def)

lemma truncate_decimal_d_Inr:
  "truncate_decimal_d x = Inr t \<longleftrightarrow>
     (\<exists>v. x = Finite v \<and> \<bar>nearest_double (v * 10)\<bar> < 2 ^ 1024
        \<and> fl (of_int \<lfloor>nearest_double (v * 10)\<rfloor> / 10) = Finite t)"
  by (auto simp: truncate_decimal_d_def py_bind_Inr math_floor_Inr int_truediv_10
      fmul_Finite_left fl_Finite)


lemma truncate_decimal_d_Finite:
  assumes "truncate_decimal_d x = Inr t"
  obtains v where "x = Finite v"
  using assms by (auto simp: truncate_decimal_d_Inr)

lemma truncate_decimal_d_zero [simp]: "truncate_decimal_d (Finite 0) = Inr 0"
  by (simp add: truncate_decimal_d_Inr)



lemma nearest_double_min_normal: "nearest_double (2 powi (- 1022)) = 2 powi (- 1022)"
proof -
  have "(2::real) powi (- 1022) / 2 powi (- 1022 - 52) = of_int (2 ^ 52)"
    by (simp add: power_int_diff)
  then have r: "round_half_even ((2::real) powi (- 1022) / 2 powi (- 1022 - 52)) = 2 ^ 52"
    by (simp only: round_half_even_of_int)
  have "nearest_double (2 powi (- 1022))
      = of_int (round_half_even ((2::real) powi (- 1022) / 2 powi (- 1022 - 52))) * 2 powi (- 1022 - 52)"
    by (rule nearest_double_in_binade) (simp_all add: power_int_add)
  also have "\<dots> = 2 ^ 52 * 2 powi (- 1022 - 52)" unfolding r by simp
  also have "\<dots> = 2 powi (- 1022)" by (simp add: power_int_diff)
  finally show ?thesis .
qed


lemma nearest_double_normal_upper:
  assumes "2 powi (- 1022) \<le> x"
  shows "nearest_double x \<le> x * (1 + 1 / 2 ^ 53)"
proof -
  have "0 < (2::real) powi (- 1022)" by (rule zero_less_power_int) simp
  with assms have x: "0 < x" by linarith
  then have "2 powi (- 1022) \<le> \<bar>x\<bar>" using assms by simp
  from nearest_double_relative_error [OF this]
  have "\<bar>nearest_double x - x\<bar> \<le> \<bar>x\<bar> / 2 ^ 53" .
  with x have "nearest_double x \<le> x + x / 2 ^ 53" by linarith
  then show ?thesis by (simp add: algebra_simps)
qed

lemma nearest_double_upper:
  assumes "0 \<le> x"
  shows "nearest_double x \<le> max (x * (1 + 1 / 2 ^ 53)) (2 powi (- 1022))"
proof (cases "2 powi (- 1022) \<le> x")
  case True
  from nearest_double_normal_upper [OF this] show ?thesis by (rule max.coboundedI1)
next
  case False
  then have "x \<le> 2 powi (- 1022)" by linarith
  then have "nearest_double x \<le> nearest_double (2 powi (- 1022))" by (rule nearest_double_mono)
  then have "nearest_double x \<le> 2 powi (- 1022)" by (simp only: nearest_double_min_normal)
  then show ?thesis by (rule max.coboundedI2)
qed




lemma truncate_decimal_d_eval:
  assumes "nearest_double (v * 10) = p" "\<bar>p\<bar> < 2 ^ 1024" "real_of_int \<lfloor>p\<rfloor> = m"
    "nearest_double (m / 10) = t" "\<bar>t\<bar> < 2 ^ 1024"
  shows "truncate_decimal_d (Finite v) = Inr t"
  using assms by (auto simp: truncate_decimal_d_Inr fl_Finite)

text \<open>
  C7 does not hold of the code. The docstring of \<open>truncate_decimal\<close> promises a
  truncation without rounding, which the claim reads as \<open>floor (v * 10) / 10\<close>; but
  \<open>value * multiplier\<close> is a float product, rounded before \<open>math.floor\<close> sees it.
  At the float 1.7999999999999998, which is \<open>2026619832316723 / 2 ^ 50\<close>, the exact
  product lies halfway between two floats and is rounded up to 18.0: the code returns the
  float 1.8, above its argument, where \<open>floor (v * 10) / 10\<close> is 1.7. At the float 0.37
  of the claim the code returns the float 0.3.
\<close>

theorem truncate_decimal_rounds_up:
  "truncate_decimal_d (Finite (2026619832316723 / 2 ^ 50)) = Inr (nearest_double 1.8)
   \<and> 2026619832316723 / 2 ^ 50 < nearest_double 1.8
   \<and> truncate_decimal (2026619832316723 / 2 ^ 50) = 1.7
   \<and> truncate_decimal_d (Finite (nearest_double 0.37)) = Inr (nearest_double 0.3)"
proof -
  have a: "nearest_double (2026619832316723 / 2 ^ 50 * 10) = 18"
    by (subst nearest_double_in_binade [of 4]) (simp_all add: round_half_even_def Let_def)
  have b: "nearest_double (18 / 10) = 8106479329266893 / 2 ^ 52"
    by (subst nearest_double_in_binade [of 0]) (simp_all add: round_half_even_def Let_def)
  have c: "nearest_double 1.8 = 8106479329266893 / 2 ^ 52"
    by (subst nearest_double_in_binade [of 0]) (simp_all add: round_half_even_def Let_def)
  have d: "nearest_double 0.37 = 3332663724254167 / 2 ^ 53"
    by (subst nearest_double_in_binade [of "- 2"]) (simp_all add: round_half_even_def Let_def)
  have e: "nearest_double (3332663724254167 / 2 ^ 53 * 10) = 4165829655317709 / 2 ^ 50"
    by (subst nearest_double_in_binade [of 1]) (simp_all add: round_half_even_def Let_def)
  have f: "nearest_double (3 / 10) = 5404319552844595 / 2 ^ 54"
    by (subst nearest_double_in_binade [of "- 2"]) (simp_all add: round_half_even_def Let_def)
  have g: "nearest_double 0.3 = 5404319552844595 / 2 ^ 54"
    by (subst nearest_double_in_binade [of "- 2"]) (simp_all add: round_half_even_def Let_def)
  have "truncate_decimal_d (Finite (2026619832316723 / 2 ^ 50)) = Inr (8106479329266893 / 2 ^ 52)"
    by (rule truncate_decimal_d_eval [OF a _ _ b]) simp_all
  moreover have "truncate_decimal (2026619832316723 / 2 ^ 50) = 1.7"
    by (simp add: truncate_decimal_def truncate_decimals_def)
  moreover have "truncate_decimal_d (Finite (3332663724254167 / 2 ^ 53))
      = Inr (5404319552844595 / 2 ^ 54)"
    by (rule truncate_decimal_d_eval [OF e _ _ f]) simp_all
  ultimately show ?thesis unfolding c d g by simp
qed

section \<open>One iteration in double precision\<close>

lemma loop_body_d_Inr:
  assumes "loop_body_d rt k c l = Inr sv"
  shows "truncate_decimal_d (py_min (py_max (Finite 0) c) l) = Inr (inv_curr_d sv)"
    and "truncate_decimal_d (fsub l (Finite (inv_curr_d sv))) = Inr (aggressive_d sv)"
    and "grid_d sv = aggressive_d sv"
    and "(if py_le l (Finite 0) then truncate_decimal_d (Finite 0)
          else py_bind (fdiv (Finite (grid_d sv)) l) truncate_decimal_d) = Inr (lam_d sv)"
    and "k_val_d sv = parse_k_expression_d rt k (Finite (lam_d sv))"
    and "truncate_decimal_d
           (fmul (fmul (fmul (k_val_d sv) (fl (lam_d sv * lam_d sv))) l) (Finite 1))
         = Inr (inc_d sv)"
    and "(if aggressive_d sv = 0
          then Inr (if inc_d sv > 0 then nearest_double 999.9 else 0)
          else py_bind (fdiv (Finite (inc_d sv)) (Finite (aggressive_d sv))) truncate_decimal_d)
         = Inr (ratio_d sv)"
    and "(if py_le l (Finite 0) then truncate_decimal_d (Finite 0)
          else py_bind (fdiv (Finite (inv_curr_d sv)) l)
                 (\<lambda>q. truncate_decimal_d (fmul q (Finite 100)))) = Inr (inv_percent_d sv)"
  using assms unfolding loop_body_d_def py_bind_Inr Let_def by auto

lemma fsub_Finite:
  "fsub x (Finite b) = Finite r \<Longrightarrow> \<exists>a. x = Finite a"
  by (cases x) (simp_all add: fsub_def)

lemma loop_body_d_load_finite:
  assumes "loop_body_d rt k c l = Inr sv"
  obtains lv where "l = Finite lv"
proof -
  from loop_body_d_Inr(2) [OF assms]
  obtain v where "fsub l (Finite (inv_curr_d sv)) = Finite v"
    by (auto simp: truncate_decimal_d_Inr)
  then obtain a where "l = Finite a" using fsub_Finite by blast
  then show ?thesis by (rule that)
qed










text \<open>
  The sentinel 999.9 of line 188 is never emitted: \<open>aggressive_i\<close> is computed as
  \<open>grid_i\<close> is, and when it is 0 so are \<open>lam_i\<close> and the adjustment.
\<close>

lemma sentinel_unreachable:
  assumes sv: "loop_body_d rt k c l = Inr sv" and a: "aggressive_d sv = 0"
  shows "inc_d sv = 0"
proof -
  from sv obtain lv where l: "l = Finite lv" by (rule loop_body_d_load_finite)
  have g: "grid_d sv = 0" using loop_body_d_Inr(3) [OF sv] a by simp
  have lam: "lam_d sv = 0"
    using loop_body_d_Inr(4) [OF sv] g l by (auto simp: py_bind_Inr split: if_splits)
  have "truncate_decimal_d (fmul (fmul (fmul (k_val_d sv) (Finite 0)) (Finite lv)) (Finite 1))
      = Inr (inc_d sv)"
    using loop_body_d_Inr(6) [OF sv] lam l by simp
  then show ?thesis
    by (cases "k_val_d sv") (auto simp: signed_inf_def truncate_decimal_d_Inr)
qed

section \<open>An example run in double precision\<close>










section \<open>The clamp in double precision\<close>



section \<open>The adjustment ratio\<close>



section \<open>The percentage\<close>



section \<open>The fallback of the gain expression in double precision\<close>

lemma substitute_lambda_d_absent:
  assumes "108 \<notin> set expr" "955 \<notin> set expr"
  shows "substitute_lambda_d rt r expr = expr"
  using assms by (simp add: substitute_lambda_d_def Let_def ascii_chars str_replace_absent)

lemma numeric_shortcut_substitute_d:
  assumes "numeric_shortcut expr"
  shows "substitute_lambda_d rt r expr = expr"
proof (rule substitute_lambda_d_absent)
  from assms have a: "\<forall>c \<in> set expr. is_digit_char c \<or> c = 46 \<or> c = 45"
    by (simp add: numeric_shortcut_chars list_all_iff)
  show "108 \<notin> set expr" using a not_digit_lambda(1) by auto
  show "955 \<notin> set expr" using a not_digit_lambda(2) by auto
qed

lemma shortcut_gives_float_d:
  assumes "numeric_shortcut (clean_expression s)"
  shows "parse_k_expression_d rt (Some s) lam =
     (case float_of_str (clean_expression s) of Inl e \<Rightarrow> default_gain | Inr x \<Rightarrow> fl x)"
  using assms
  by (simp add: parse_k_expression_d_def parse_k_expression_try_d_def float_of_str_d_def Let_def
      split: sum.splits)

lemma rejected_gives_default_d:
  assumes "\<not> numeric_shortcut (clean_expression s)"
    and "\<not> list_all (\<lambda>c. c \<in> set allowed_chars) (substitute_lambda_d rt lam (clean_expression s))"
  shows "parse_k_expression_d rt (Some s) lam = default_gain"
  using assms by (simp add: parse_k_expression_d_def parse_k_expression_try_d_def Let_def)

lemma foreign_char_gives_default_d:
  assumes "c \<in> set (substitute_lambda_d rt lam (clean_expression s))"
    and "c \<notin> set allowed_chars" and "\<not> is_digit_char c"
  shows "parse_k_expression_d rt (Some s) lam = default_gain"
proof (rule rejected_gives_default_d)
  show "\<not> numeric_shortcut (clean_expression s)"
  proof
    assume n: "numeric_shortcut (clean_expression s)"
    then have "substitute_lambda_d rt lam (clean_expression s) = clean_expression s"
      by (rule numeric_shortcut_substitute_d)
    with assms(1) have "c \<in> set (clean_expression s)" by simp
    with n have "is_digit_char c \<or> c = 46 \<or> c = 45"
      by (simp add: numeric_shortcut_chars list_all_iff)
    with assms(2,3) allowed_point_minus show False by auto
  qed
  from assms(1,2)
  show "\<not> list_all (\<lambda>c. c \<in> set allowed_chars) (substitute_lambda_d rt lam (clean_expression s))"
    by (auto simp: list_all_iff)
qed

lemma evaluated_gives_result_d:
  assumes "\<not> numeric_shortcut (clean_expression s)"
    and "list_all (\<lambda>c. c \<in> set allowed_chars) (substitute_lambda_d rt lam (clean_expression s))"
  shows "parse_k_expression_d rt (Some s) lam =
     (case runtime_eval rt (substitute_lambda_d rt lam (clean_expression s)) of
        Inl e \<Rightarrow> default_gain | Inr v \<Rightarrow> v)"
  using assms by (simp add: parse_k_expression_d_def parse_k_expression_try_d_def Let_def)

text \<open>
  C5, amended. The gain evaluator returns a float for every expression (a string or
  None), every ratio and every behaviour of \<open>str\<close> and \<open>eval\<close>; the handler covers its
  whole body, so no exception reaches the caller. For None it returns the default 0.01.
  When the expression takes the shortcut for plain numbers, it returns what \<open>float\<close>
  returns (an infinity when the number is too large) and 0.01 when \<open>float\<close> raises,
  whatever the characters of the expression are. When it does not take the shortcut and,
  after the substitution of the free variable, contains a character outside the digits
  and \<open>+ - * / . ( ) e E\<close>, it returns 0.01; this is so in particular whenever the
  expression after substitution contains a character outside that set which
  \<open>str.isdigit\<close> does not accept. Otherwise it returns what \<open>eval\<close> and \<open>float\<close>
  return, and 0.01 when either of them raises.
\<close>

theorem gain_falls_back_to_default:
  "parse_k_expression_d rt None lam = default_gain
   \<and> (numeric_shortcut (clean_expression s)
       \<longrightarrow> parse_k_expression_d rt (Some s) lam =
            (case float_of_str (clean_expression s) of
               Inl e \<Rightarrow> default_gain | Inr x \<Rightarrow> fl x))
   \<and> (\<not> numeric_shortcut (clean_expression s)
        \<and> \<not> list_all (\<lambda>c. c \<in> set allowed_chars)
              (substitute_lambda_d rt lam (clean_expression s))
       \<longrightarrow> parse_k_expression_d rt (Some s) lam = default_gain)
   \<and> (c \<in> set (substitute_lambda_d rt lam (clean_expression s))
        \<and> c \<notin> set allowed_chars \<and> \<not> is_digit_char c
       \<longrightarrow> parse_k_expression_d rt (Some s) lam = default_gain)
   \<and> (\<not> numeric_shortcut (clean_expression s)
        \<and> list_all (\<lambda>c. c \<in> set allowed_chars)
            (substitute_lambda_d rt lam (clean_expression s))
       \<longrightarrow> parse_k_expression_d rt (Some s) lam =
            (case runtime_eval rt (substitute_lambda_d rt lam (clean_expression s)) of
               Inl e \<Rightarrow> default_gain | Inr v \<Rightarrow> v))"
proof -
  have "parse_k_expression_d rt None lam = default_gain"
    by (simp add: parse_k_expression_d_def parse_k_expression_try_d_def)
  then show ?thesis
    using shortcut_gives_float_d [of s rt lam] rejected_gives_default_d [of s rt lam]
      foreign_char_gives_default_d [of c rt lam s] evaluated_gives_result_d [of s rt lam]
    by blast
qed

lemma clean_plain:
  "clean_expression [1635] = [1635]"
  "clean_expression (ascii ''3-1'') = ascii ''3-1''"
  "clean_expression (ascii ''1/0'') = ascii ''1/0''"
  "clean_expression (ascii ''not_a_formula!!'') = ascii ''not_a_formula!!''"
  by (simp_all add: clean_expression_def Let_def ascii_def str_strip_def whitespace_def)

lemmas digit_tables = is_digit_char_def decimal_value_def decimal_ranges_def
  other_digit_ranges_def in_range_def

theorem gain_falls_back_to_default_witness:
  "\<forall>rt. numeric_shortcut (clean_expression [1635])
      \<and> parse_k_expression_d rt (Some [1635]) (Finite 0.5) = Finite 3
      \<and> numeric_shortcut (clean_expression (ascii ''3-1''))
      \<and> float_of_str (clean_expression (ascii ''3-1'')) = Inl ValueError
      \<and> parse_k_expression_d rt (Some (ascii ''3-1'')) (Finite 0.5) = default_gain
      \<and> \<not> numeric_shortcut (clean_expression (ascii ''not_a_formula!!''))
      \<and> \<not> list_all (\<lambda>c. c \<in> set allowed_chars)
            (substitute_lambda_d rt (Finite 0.5) (clean_expression (ascii ''not_a_formula!!'')))
      \<and> 110 \<in> set (substitute_lambda_d rt (Finite 0.5)
                      (clean_expression (ascii ''not_a_formula!!'')))
      \<and> 110 \<notin> set allowed_chars \<and> \<not> is_digit_char 110
      \<and> parse_k_expression_d rt (Some (ascii ''not_a_formula!!'')) (Finite 0.5) = default_gain
      \<and> \<not> numeric_shortcut (clean_expression (ascii ''1/0''))
      \<and> list_all (\<lambda>c. c \<in> set allowed_chars)
           (substitute_lambda_d rt (Finite 0.5) (clean_expression (ascii ''1/0'')))
      \<and> parse_k_expression_d rt (Some (ascii ''1/0'')) (Finite 0.5) =
           (case runtime_eval rt (ascii ''1/0'') of Inl e \<Rightarrow> default_gain | Inr v \<Rightarrow> v)"
proof
  fix rt
  have a1: "numeric_shortcut (clean_expression [1635])"
    unfolding clean_plain numeric_shortcut_chars by (simp add: digit_tables)
  have a2: "float_of_str (clean_expression [1635]) = Inr 3"
    unfolding clean_plain
    by (simp add: float_of_str_def unsigned_value_def decimal_value_def decimal_ranges_def
        in_range_def)
  have a3: "fl 3 = Finite 3" using fl_of_int [of 3] by simp
  have b1: "numeric_shortcut (clean_expression (ascii ''3-1''))"
    unfolding clean_plain numeric_shortcut_chars by (simp add: ascii_def digit_tables)
  have b2: "float_of_str (clean_expression (ascii ''3-1'')) = Inl ValueError"
    unfolding clean_plain
    by (simp add: ascii_def float_of_str_def unsigned_value_def decimal_value_def
        decimal_ranges_def in_range_def)
  have c0: "substitute_lambda_d rt (Finite 0.5) (ascii ''not_a_formula!!'')
      = ascii ''not_a_formula!!''"
    by (simp add: substitute_lambda_d_def Let_def ascii_def)
  have c1: "\<not> numeric_shortcut (clean_expression (ascii ''not_a_formula!!''))"
    unfolding clean_plain numeric_shortcut_chars by (simp add: ascii_def digit_tables)
  have c2: "110 \<in> set (substitute_lambda_d rt (Finite 0.5)
        (clean_expression (ascii ''not_a_formula!!'')))"
    unfolding clean_plain c0 by (simp add: ascii_def)
  have c3: "110 \<notin> set allowed_chars" by (simp add: allowed_chars_def ascii_def)
  have c4: "\<not> is_digit_char 110" by (simp add: digit_tables)
  have c5: "\<not> list_all (\<lambda>c. c \<in> set allowed_chars)
      (substitute_lambda_d rt (Finite 0.5) (clean_expression (ascii ''not_a_formula!!'')))"
    using c2 c3 by (auto simp: list_all_iff)
  have d0: "substitute_lambda_d rt (Finite 0.5) (ascii ''1/0'') = ascii ''1/0''"
    by (rule substitute_lambda_d_absent) (simp_all add: ascii_def)
  have d1: "\<not> numeric_shortcut (clean_expression (ascii ''1/0''))"
    unfolding clean_plain numeric_shortcut_chars by (simp add: ascii_def digit_tables)
  have d2: "list_all (\<lambda>c. c \<in> set allowed_chars)
      (substitute_lambda_d rt (Finite 0.5) (clean_expression (ascii ''1/0'')))"
    unfolding clean_plain d0 by (simp add: allowed_chars_def ascii_def)
  have d3: "substitute_lambda_d rt (Finite 0.5) (clean_expression (ascii ''1/0'')) = ascii ''1/0''"
    unfolding clean_plain d0 ..
  show "numeric_shortcut (clean_expression [1635])
      \<and> parse_k_expression_d rt (Some [1635]) (Finite 0.5) = Finite 3
      \<and> numeric_shortcut (clean_expression (ascii ''3-1''))
      \<and> float_of_str (clean_expression (ascii ''3-1'')) = Inl ValueError
      \<and> parse_k_expression_d rt (Some (ascii ''3-1'')) (Finite 0.5) = default_gain
      \<and> \<not> numeric_shortcut (clean_expression (ascii ''not_a_formula!!''))
      \<and> \<not> list_all (\<lambda>c. c \<in> set allowed_chars)
            (substitute_lambda_d rt (Finite 0.5) (clean_expression (ascii ''not_a_formula!!'')))
      \<and> 110 \<in> set (substitute_lambda_d rt (Finite 0.5)
                      (clean_expression (ascii ''not_a_formula!!'')))
      \<and> 110 \<notin> set allowed_chars \<and> \<not> is_digit_char 110
      \<and> parse_k_expression_d rt (Some (ascii ''not_a_formula!!'')) (Finite 0.5) = default_gain
      \<and> \<not> numeric_shortcut (clean_expression (ascii ''1/0''))
      \<and> list_all (\<lambda>c. c \<in> set allowed_chars)
           (substitute_lambda_d rt (Finite 0.5) (clean_expression (ascii ''1/0'')))
      \<and> parse_k_expression_d rt (Some (ascii ''1/0'')) (Finite 0.5) =
           (case runtime_eval rt (ascii ''1/0'') of Inl e \<Rightarrow> default_gain | Inr v \<Rightarrow> v)"
    using gain_falls_back_to_default [of rt "Finite 0.5" "[1635]" 110]
      gain_falls_back_to_default [of rt "Finite 0.5" "ascii ''3-1''" 110]
      gain_falls_back_to_default [of rt "Finite 0.5" "ascii ''not_a_formula!!''" 110]
      gain_falls_back_to_default [of rt "Finite 0.5" "ascii ''1/0''" 110]
      a1 a2 a3 b1 b2 c1 c2 c3 c4 c5 d1 d2 d3
    by simp
qed

end
